theory Spec2Isabelle
  imports Main
begin

section \<open>The mock streaming provider of \<^verbatim>\<open>framework/llm/mock.py\<close>\<close>

text \<open>
  The development embeds \<^verbatim>\<open>MockLLMProvider.stream\<close> and what it calls.
  \<^verbatim>\<open>stream\<close> is an \<^verbatim>\<open>async def\<close> with \<^verbatim>\<open>yield\<close> in its body, that is, an
  asynchronous generator function: calling it builds a generator object and runs none
  of the body; each \<^verbatim>\<open>__anext__\<close> (one round of \<^verbatim>\<open>async for\<close>) runs the body from
  where it was suspended up to the next \<^verbatim>\<open>yield\<close>. The body awaits nothing, so one
  \<^verbatim>\<open>__anext__\<close> is one uninterrupted step. The model keeps the two apart: \<open>stream\<close>
  is the call, \<open>anext\<close> is one step of the body on an explicit provider state,
  \<open>collect\<close> is the consumer loop of the test-suite, and \<open>act\<close> is one action of a
  caller that makes calls, requests items and changes its own lists in any order.
\<close>

subsection \<open>Python primitives that can raise\<close>

datatype py_error = IndexError | ZeroDivisionError

text \<open>\<^verbatim>\<open>a % b\<close> on Python integers: floor remainder, \<^verbatim>\<open>ZeroDivisionError\<close> for \<^verbatim>\<open>b == 0\<close>.\<close>

definition py_mod :: "int \<Rightarrow> int \<Rightarrow> py_error + int" where
  "py_mod a b = (if b = 0 then Inl ZeroDivisionError else Inr (a mod b))"

text \<open>\<^verbatim>\<open>xs[i]\<close> on a Python list: a negative index counts from the end,
  an index outside the list raises \<^verbatim>\<open>IndexError\<close>.\<close>

definition py_getitem :: "'a list \<Rightarrow> int \<Rightarrow> py_error + 'a" where
  "py_getitem xs i =
     (if 0 \<le> i \<and> i < int (length xs) then Inr (xs ! nat i)
      else if i < 0 \<and> - int (length xs) \<le> i then Inr (xs ! nat (int (length xs) + i))
      else Inl IndexError)"

text \<open>\<^verbatim>\<open>s.split(sep)\<close> for a one-character separator: every occurrence of the
  separator cuts, empty pieces are kept, and the result is never empty
  (\<^verbatim>\<open>"".split(" ") == [""]\<close>).\<close>

fun str_split :: "char \<Rightarrow> string \<Rightarrow> string list" where
  "str_split sep [] = [[]]"
| "str_split sep (c # cs) =
     (if c = sep then [] # str_split sep cs
      else (case str_split sep cs of
              [] \<Rightarrow> [[c]]
            | w # ws \<Rightarrow> (c # w) # ws))"

subsection \<open>Stream events\<close>

text \<open>
  Modelled from the spec: the event classes of \<^verbatim>\<open>framework/llm/stream_events.py\<close>,
  which \<^verbatim>\<open>mock.py\<close> imports and which is not among the sources. The spec's data
  model gives the variants and the fields of the four that \<^verbatim>\<open>mock.py\<close> constructs;
  the fields of the other three are not given and are one opaque payload here.
  \<open>'v\<close> is the type of a tool's input dictionary, opaque to the provider. A
  \<^verbatim>\<open>FinishEvent\<close> is built with keyword arguments; a token count the constructor
  call leaves out (the class default, not in the sources) is \<open>None\<close>.
\<close>

datatype 'v StreamEvent =
    TextDeltaEvent (content: string) (snapshot: string)
  | TextEndEvent (full_text: string)
  | ToolCallEvent string string 'v
  | ToolResultEvent 'v
  | ReasoningStartEvent 'v
  | ReasoningDeltaEvent 'v
  | FinishEvent string string "int option" "int option"
  | StreamErrorEvent string bool

text \<open>The arguments of \<open>ToolCallEvent\<close> are \<^verbatim>\<open>tool_use_id\<close>, \<^verbatim>\<open>tool_name\<close>,
  \<^verbatim>\<open>tool_input\<close>; of \<open>FinishEvent\<close>: \<^verbatim>\<open>stop_reason\<close>, \<^verbatim>\<open>model\<close>, \<^verbatim>\<open>input_tokens\<close>,
  \<^verbatim>\<open>output_tokens\<close>; of \<open>StreamErrorEvent\<close>: \<^verbatim>\<open>error\<close>, \<^verbatim>\<open>recoverable\<close>.\<close>

fun is_text_delta :: "'v StreamEvent \<Rightarrow> bool" where
  "is_text_delta (TextDeltaEvent c s) = True"
| "is_text_delta e = False"

fun is_text_end :: "'v StreamEvent \<Rightarrow> bool" where
  "is_text_end (TextEndEvent t) = True"
| "is_text_end e = False"

fun is_finish :: "'v StreamEvent \<Rightarrow> bool" where
  "is_finish (FinishEvent reason mdl tin tout) = True"
| "is_finish e = False"

fun is_stream_error :: "'v StreamEvent \<Rightarrow> bool" where
  "is_stream_error (StreamErrorEvent e r) = True"
| "is_stream_error e = False"

definition is_terminal :: "'v StreamEvent \<Rightarrow> bool" where
  "is_terminal e = (is_finish e \<or> is_stream_error e)"

subsection \<open>The provider\<close>

text \<open>
  One entry of \<^verbatim>\<open>stream_calls\<close>: the dictionary
  \<^verbatim>\<open>{"messages": messages, "system": system, "tools": tools}\<close>. The dictionary
  holds the argument objects themselves, with no copy. \<open>'m\<close> is the type of what
  the caller passes as \<^verbatim>\<open>messages\<close> and \<open>'t\<close> of what it passes as \<^verbatim>\<open>tools\<close>
  when that is not \<^verbatim>\<open>None\<close>; the provider never looks into either. Where a
  caller's later changes to a list it passed matter, \<open>'m\<close> and \<open>'t\<close> are addresses
  into a heap of list objects (see \<open>world\<close> below); where they do not, they may be
  the lists themselves. \<^verbatim>\<open>system\<close> is a Python string, immutable.
\<close>

record ('m, 't) invocation =
  messages :: 'm
  system :: string
  tools :: "'t option"

text \<open>The instance attributes set by \<^verbatim>\<open>__init__\<close>; \<open>call_index\<close> is
  \<^verbatim>\<open>_call_index\<close>, a Python integer.\<close>

record ('m, 't, 'v) MockLLMProvider =
  model :: string
  scenarios :: "'v StreamEvent list list"
  call_index :: int
  stream_calls :: "('m, 't) invocation list"

text \<open>\<^verbatim>\<open>__init__(model, scenarios)\<close>; \<^verbatim>\<open>scenarios or []\<close> turns both \<^verbatim>\<open>None\<close>
  and the empty list into the empty list.\<close>

definition init :: "string \<Rightarrow> 'v StreamEvent list list option \<Rightarrow> ('m, 't, 'v) MockLLMProvider" where
  "init model_name scenarios_arg =
     \<lparr> model = model_name,
       scenarios = (case scenarios_arg of None \<Rightarrow> [] | Some s \<Rightarrow> if s \<noteq> [] then s else []),
       call_index = 0,
       stream_calls = [] \<rparr>"

text \<open>
  \<^verbatim>\<open>_generate_mock_response(system, json_mode)\<close>. Its JSON branch calls
  \<^verbatim>\<open>_extract_output_keys\<close> (three regular-expression searches) and \<^verbatim>\<open>json.dumps\<close>;
  both are taken as parameters, gathered in \<open>externals\<close>. \<open>json_dumps\<close> receives
  the dictionary as its items in insertion order. The dictionary comprehension
  \<^verbatim>\<open>{key: f"mock_{key}_value" for key in keys}\<close> has one entry per distinct key, at
  the place of the key's first occurrence (\<open>dict_keys\<close>). \<^verbatim>\<open>stream\<close> only ever
  passes \<^verbatim>\<open>json_mode=False\<close>.
\<close>

record externals =
  extract_output_keys :: "string \<Rightarrow> string list"
  json_dumps :: "(string \<times> string) list \<Rightarrow> string"

definition dict_keys :: "'a list \<Rightarrow> 'a list" where
  "dict_keys keys = rev (remdups (rev keys))"

definition generate_mock_response :: "externals \<Rightarrow> string \<Rightarrow> bool \<Rightarrow> string" where
  "generate_mock_response ext sys json_mode =
     (if json_mode then
        (let keys = extract_output_keys ext sys in
         if keys \<noteq> [] then
           json_dumps ext (map (\<lambda>key. (key, ''mock_'' @ key @ ''_value'')) (dict_keys keys))
         else
           json_dumps ext [(''result'', ''mock_result_value'')])
      else
        ''This is a mock response for testing purposes.'')"

subsection \<open>The generator object of \<^verbatim>\<open>stream\<close>\<close>

text \<open>
  A suspended frame of the body of \<^verbatim>\<open>stream\<close>, by the place where it waits:
  \<^item> \<open>Created\<close>: not started; it holds the arguments \<^verbatim>\<open>messages\<close>, \<^verbatim>\<open>system\<close>,
    \<^verbatim>\<open>tools\<close>, \<^verbatim>\<open>max_tokens\<close>;
  \<^item> \<open>AtEventYield\<close>: at \<^verbatim>\<open>yield event\<close> in the scenario loop, with the events the
    loop has still to visit;
  \<^item> \<open>AtDeltaYield\<close>: at the \<^verbatim>\<open>yield\<close> of a \<^verbatim>\<open>TextDeltaEvent\<close>, with the items
    of \<^verbatim>\<open>enumerate(words)\<close> still to visit and \<^verbatim>\<open>accumulated\<close>;
  \<^item> \<open>AtEndYield\<close>: at the \<^verbatim>\<open>yield\<close> of the \<^verbatim>\<open>TextEndEvent\<close>;
  \<^item> \<open>AtFinishYield\<close>: at the \<^verbatim>\<open>yield\<close> of the fallback's \<^verbatim>\<open>FinishEvent\<close>;
  \<^item> \<open>Closed\<close>: the body has returned or raised.
\<close>

datatype ('m, 't, 'v) stream_gen =
    Created 'm string "'t option" int
  | AtEventYield "'v StreamEvent list"
  | AtDeltaYield "(nat \<times> string) list" string
  | AtEndYield
  | AtFinishYield
  | Closed

text \<open>Whether the body has not been started yet.\<close>

fun is_created :: "('m, 't, 'v) stream_gen \<Rightarrow> bool" where
  "is_created (Created msgs sys tls max_tokens) = True"
| "is_created g = False"

text \<open>What one \<^verbatim>\<open>__anext__\<close> gives its caller.\<close>

datatype 'v outcome = Yield "'v StreamEvent" | StopAsyncIteration | Raise py_error

text \<open>Calling \<^verbatim>\<open>provider.stream(messages, system, tools, max_tokens)\<close>: the
  generator object, and the provider as the call leaves it.\<close>

definition stream ::
  "('m, 't, 'v) MockLLMProvider \<Rightarrow> 'm \<Rightarrow> string \<Rightarrow> 't option \<Rightarrow> int
   \<Rightarrow> ('m, 't, 'v) stream_gen \<times> ('m, 't, 'v) MockLLMProvider" where
  "stream p msgs sys tls max_tokens = (Created msgs sys tls max_tokens, p)"

text \<open>\<^verbatim>\<open>for event in events: yield event\<close>, entered or resumed with the events
  still to visit.\<close>

fun next_event ::
  "'v StreamEvent list \<Rightarrow> ('m, 't, 'v) MockLLMProvider
   \<Rightarrow> 'v outcome \<times> ('m, 't, 'v) stream_gen \<times> ('m, 't, 'v) MockLLMProvider" where
  "next_event [] p = (StopAsyncIteration, Closed, p)"
| "next_event (event # rest) p = (Yield event, AtEventYield rest, p)"

text \<open>The fallback's loop over \<^verbatim>\<open>enumerate(words)\<close>, entered or resumed; when the
  loop is over the body goes on to \<^verbatim>\<open>yield TextEndEvent(full_text=accumulated)\<close>.\<close>

fun next_word ::
  "(nat \<times> string) list \<Rightarrow> string \<Rightarrow> ('m, 't, 'v) MockLLMProvider
   \<Rightarrow> 'v outcome \<times> ('m, 't, 'v) stream_gen \<times> ('m, 't, 'v) MockLLMProvider" where
  "next_word [] accumulated p = (Yield (TextEndEvent accumulated), AtEndYield, p)"
| "next_word ((i, word) # rest) accumulated p =
     (let chunk = (if i = 0 then word else '' '' @ word);
          accumulated' = accumulated @ chunk
      in (Yield (TextDeltaEvent chunk accumulated'), AtDeltaYield rest accumulated', p))"

text \<open>One \<^verbatim>\<open>__anext__\<close> on a generator of \<^verbatim>\<open>stream\<close>: the body runs from the
  frame's place to the next \<^verbatim>\<open>yield\<close>, on the provider as it is at that moment.\<close>

fun anext ::
  "externals \<Rightarrow> ('m, 't, 'v) MockLLMProvider \<Rightarrow> ('m, 't, 'v) stream_gen
   \<Rightarrow> 'v outcome \<times> ('m, 't, 'v) stream_gen \<times> ('m, 't, 'v) MockLLMProvider" where
  "anext ext p (Created msgs sys tls max_tokens) =
     (let p1 = p\<lparr>stream_calls :=
                  stream_calls p @ [\<lparr>messages = msgs, system = sys, tools = tls\<rparr>]\<rparr>
      in if scenarios p1 \<noteq> [] then
           (case py_mod (call_index p1) (int (length (scenarios p1))) of
              Inl err \<Rightarrow> (Raise err, Closed, p1)
            | Inr k \<Rightarrow>
                (case py_getitem (scenarios p1) k of
                   Inl err \<Rightarrow> (Raise err, Closed, p1)
                 | Inr events \<Rightarrow> next_event events (p1\<lparr>call_index := call_index p1 + 1\<rparr>)))
         else
           (let content = generate_mock_response ext sys False;
                words = str_split (CHR '' '') content
            in next_word (List.enumerate 0 words) [] p1))"
| "anext ext p (AtEventYield rest) = next_event rest p"
| "anext ext p (AtDeltaYield rest accumulated) = next_word rest accumulated p"
| "anext ext p AtEndYield =
     (Yield (FinishEvent ''mock_complete'' (model p) None None), AtFinishYield, p)"
| "anext ext p AtFinishYield = (StopAsyncIteration, Closed, p)"
| "anext ext p Closed = (StopAsyncIteration, Closed, p)"

subsection \<open>Consumers\<close>

text \<open>How far a frame is from the end of the body, in \<^verbatim>\<open>yield\<close>s.\<close>

fun frame_rank :: "('m, 't, 'v) stream_gen \<Rightarrow> nat" where
  "frame_rank (Created msgs sys tls max_tokens) = 0"
| "frame_rank (AtEventYield rest) = length rest"
| "frame_rank (AtDeltaYield rest accumulated) = length rest + 2"
| "frame_rank AtEndYield = 1"
| "frame_rank AtFinishYield = 0"
| "frame_rank Closed = 0"

definition yields_left ::
  "externals \<Rightarrow> ('m, 't, 'v) MockLLMProvider \<Rightarrow> ('m, 't, 'v) stream_gen \<Rightarrow> nat" where
  "yields_left ext p g =
     (case g of
        Created msgs sys tls max_tokens \<Rightarrow> Suc (frame_rank (fst (snd (anext ext p g))))
      | _ \<Rightarrow> frame_rank g)"

lemma anext_yields_left:
  "anext ext p g = (Yield e, g', p') \<Longrightarrow> yields_left ext p' g' < yields_left ext p g"
proof (cases g)
  case (Created msgs sys tls max_tokens)
  assume a: "anext ext p g = (Yield e, g', p')"
  have "(\<exists>rest. g' = AtEventYield rest) \<or> (\<exists>rest acc. g' = AtDeltaYield rest acc)
          \<or> g' = AtEndYield"
    using a Created
    by (auto simp: Let_def split: if_splits sum.splits list.splits
             elim!: next_event.elims next_word.elims)
  then have "yields_left ext p' g' = frame_rank g'"
    by (auto simp: yields_left_def)
  moreover have "yields_left ext p g = Suc (frame_rank g')"
    using a Created by (simp add: yields_left_def)
  ultimately show ?thesis by simp
next
  case (AtEventYield rest)
  assume "anext ext p g = (Yield e, g', p')"
  with AtEventYield show ?thesis
    by (cases rest) (auto simp: yields_left_def)
next
  case (AtDeltaYield rest accumulated)
  assume "anext ext p g = (Yield e, g', p')"
  with AtDeltaYield show ?thesis
    by (cases rest) (auto simp: yields_left_def Let_def)
next
  case AtEndYield
  assume "anext ext p g = (Yield e, g', p')"
  with AtEndYield show ?thesis by (auto simp: yields_left_def)
next
  case AtFinishYield
  assume "anext ext p g = (Yield e, g', p')"
  with AtFinishYield show ?thesis by simp
next
  case Closed
  assume "anext ext p g = (Yield e, g', p')"
  with Closed show ?thesis by simp
qed

text \<open>
  The test-suite's \<^verbatim>\<open>_collect\<close>: \<^verbatim>\<open>async for event in gen: events.append(event)\<close>,
  that is, \<^verbatim>\<open>__anext__\<close> until it stops. An exception of the body leaves the loop
  and loses the list. The result is the list (or the exception), the generator and
  the provider as the loop leaves them.
\<close>

function collect ::
  "externals \<Rightarrow> ('m, 't, 'v) MockLLMProvider \<Rightarrow> ('m, 't, 'v) stream_gen
   \<Rightarrow> (py_error + 'v StreamEvent list) \<times> ('m, 't, 'v) stream_gen \<times> ('m, 't, 'v) MockLLMProvider" where
  "collect ext p g =
     (case anext ext p g of
        (Yield e, g', p') \<Rightarrow>
          (case collect ext p' g' of
             (Inl err, g'', p'') \<Rightarrow> (Inl err, g'', p'')
           | (Inr es, g'', p'') \<Rightarrow> (Inr (e # es), g'', p''))
      | (StopAsyncIteration, g', p') \<Rightarrow> (Inr [], g', p')
      | (Raise err, g', p') \<Rightarrow> (Inl err, g', p'))"
  by pat_completeness auto
termination
  by (relation "measure (\<lambda>(ext, p, g). yields_left ext p g)")
     (auto intro: anext_yields_left [OF sym])

declare collect.simps [simp del]

text \<open>A consumer that asks for at most \<open>k\<close> items and then drops the generator
  (\<^verbatim>\<open>async for\<close> left by \<^verbatim>\<open>break\<close>); it also stops when the generator does.\<close>

fun consume ::
  "nat \<Rightarrow> externals \<Rightarrow> ('m, 't, 'v) MockLLMProvider \<Rightarrow> ('m, 't, 'v) stream_gen
   \<Rightarrow> 'v StreamEvent list \<times> ('m, 't, 'v) stream_gen \<times> ('m, 't, 'v) MockLLMProvider" where
  "consume 0 ext p g = ([], g, p)"
| "consume (Suc k) ext p g =
     (case anext ext p g of
        (Yield e, g', p') \<Rightarrow>
          (case consume k ext p' g' of (es, g'', p'') \<Rightarrow> (e # es, g'', p''))
      | (StopAsyncIteration, g', p') \<Rightarrow> ([], g', p')
      | (Raise err, g', p') \<Rightarrow> ([], g', p'))"

text \<open>The events one call emits when its generator is consumed to the end:
  \<^verbatim>\<open>_collect(provider, ...)\<close> of the test-suite, for a provider in state \<open>p\<close>.\<close>

definition emitted ::
  "externals \<Rightarrow> ('m, 't, 'v) MockLLMProvider \<Rightarrow> 'm \<Rightarrow> string \<Rightarrow> 't option \<Rightarrow> int
   \<Rightarrow> py_error + 'v StreamEvent list" where
  "emitted ext p msgs sys tls max_tokens =
     (case stream p msgs sys tls max_tokens of (g, p1) \<Rightarrow> fst (collect ext p1 g))"

text \<open>The provider after such a call.\<close>

definition after_call ::
  "externals \<Rightarrow> ('m, 't, 'v) MockLLMProvider \<Rightarrow> 'm \<Rightarrow> string \<Rightarrow> 't option \<Rightarrow> int
   \<Rightarrow> ('m, 't, 'v) MockLLMProvider" where
  "after_call ext p msgs sys tls max_tokens =
     (case stream p msgs sys tls max_tokens of (g, p1) \<Rightarrow> snd (snd (collect ext p1 g)))"

text \<open>A run of calls on one provider, each consumed to its end before the next is
  made (\<^verbatim>\<open>events1 = await _collect(provider); events2 = await _collect(provider)\<close>):
  what each call emitted, in call order, and the provider after the last.\<close>

fun run_calls ::
  "externals \<Rightarrow> ('m, 't, 'v) MockLLMProvider \<Rightarrow> ('m \<times> string \<times> 't option \<times> int) list
   \<Rightarrow> (py_error + 'v StreamEvent list) list \<times> ('m, 't, 'v) MockLLMProvider" where
  "run_calls ext p [] = ([], p)"
| "run_calls ext p ((msgs, sys, tls, max_tokens) # calls) =
     (case run_calls ext (after_call ext p msgs sys tls max_tokens) calls of
        (rs, p') \<Rightarrow> (emitted ext p msgs sys tls max_tokens # rs, p'))"

subsection \<open>Scenario helpers\<close>

text \<open>\<^verbatim>\<open>text_scenario(text, input_tokens, output_tokens)\<close>.\<close>

definition text_scenario :: "string \<Rightarrow> int \<Rightarrow> int \<Rightarrow> 'v StreamEvent list" where
  "text_scenario text input_tokens output_tokens =
     [TextDeltaEvent text text,
      FinishEvent ''stop'' ''mock'' (Some input_tokens) (Some output_tokens)]"

text \<open>\<^verbatim>\<open>tool_call_scenario(tool_name, tool_input, tool_use_id, text)\<close>; an empty
  \<^verbatim>\<open>text\<close> is falsy.\<close>

definition tool_call_scenario :: "string \<Rightarrow> 'v \<Rightarrow> string \<Rightarrow> string \<Rightarrow> 'v StreamEvent list" where
  "tool_call_scenario tool_name tool_input tool_use_id text =
     (if text \<noteq> [] then [TextDeltaEvent text text] else [])
     @ [ToolCallEvent tool_use_id tool_name tool_input]
     @ [FinishEvent ''tool_calls'' ''mock'' (Some 10) (Some 5)]"

text \<open>\<^verbatim>\<open>error_scenario(error, recoverable)\<close>.\<close>

definition error_scenario :: "string \<Rightarrow> bool \<Rightarrow> 'v StreamEvent list" where
  "error_scenario error recoverable = [StreamErrorEvent error recoverable]"

subsection \<open>Properties of an emitted sequence\<close>

text \<open>Exactly one terminal event (a \<^verbatim>\<open>FinishEvent\<close> or a \<^verbatim>\<open>StreamErrorEvent\<close>), in
  last place.\<close>

definition terminal_ok :: "'v StreamEvent list \<Rightarrow> bool" where
  "terminal_ok es =
     (es \<noteq> [] \<and> is_terminal (last es) \<and> length (filter is_terminal es) = 1)"

text \<open>The snapshot of the \<open>i\<close>-th text delta is the concatenation of the contents of
  the deltas up to and including it.\<close>

definition snapshots_ok :: "'v StreamEvent list \<Rightarrow> bool" where
  "snapshots_ok es =
     (\<forall>i < length (filter is_text_delta es).
        snapshot (filter is_text_delta es ! i)
          = concat (map content (take (Suc i) (filter is_text_delta es))))"

text \<open>At most one \<^verbatim>\<open>TextEndEvent\<close>, and the \<^verbatim>\<open>full_text\<close> of one is the concatenation
  of the contents of the text deltas before it.\<close>

definition text_end_ok :: "'v StreamEvent list \<Rightarrow> bool" where
  "text_end_ok es =
     (length (filter is_text_end es) \<le> 1 \<and>
      (\<forall>i < length es. is_text_end (es ! i) \<longrightarrow>
         full_text (es ! i) = concat (map content (filter is_text_delta (take i es)))))"

subsection \<open>Callers: calls, requests and writes in any order\<close>

text \<open>
  A caller of one provider, seen from outside: it makes calls, requests items from
  the generators it holds, in any order, and changes the list objects it owns. The
  caller's lists live in a heap, and what it passes as \<^verbatim>\<open>messages\<close> and \<^verbatim>\<open>tools\<close>
  is the address of a list object.
  \<^item> \<open>Call m sys t max_tokens\<close> is \<^verbatim>\<open>provider.stream(messages, system, tools, max_tokens)\<close>
    with the list object at \<open>m\<close> as \<^verbatim>\<open>messages\<close> and the one at \<open>t\<close> (or \<^verbatim>\<open>None\<close>) as
    \<^verbatim>\<open>tools\<close>; the generators are numbered in the order of the calls, from 0.
  \<^item> \<open>Request i\<close> is one \<^verbatim>\<open>__anext__\<close> on the generator of call \<open>i\<close> (nothing, when
    fewer calls have been made).
  \<^item> \<open>Write a c\<close>: the caller gives the list object at \<open>a\<close> the content \<open>c\<close> (it
    builds a list, or appends to one it has passed before).
\<close>

type_synonym addr = nat

datatype 'c action =
    Call addr string "addr option" int
  | Request nat
  | Write addr 'c

text \<open>
  What is kept for one call: its arguments, the frame of its generator, the events
  its caller has received so far and the number of requests made on it.
\<close>

record 'v call_entry =
  args :: "addr \<times> string \<times> addr option \<times> int"
  frame :: "(addr, addr, 'v) stream_gen"
  received :: "'v StreamEvent list"
  requests :: nat

text \<open>
  The world: the provider, the heap, the calls made so far, and \<open>started\<close>, the
  numbers of the calls whose body has begun, in the order in which it began (the body
  of a call begins at the first request on its generator).
\<close>

record ('c, 'v) world =
  provider :: "(addr, addr, 'v) MockLLMProvider"
  heap :: "addr \<rightharpoonup> 'c"
  calls :: "'v call_entry list"
  started :: "nat list"

fun act :: "externals \<Rightarrow> ('c, 'v) world \<Rightarrow> 'c action \<Rightarrow> ('c, 'v) world" where
  "act ext w (Call m sys t max_tokens) =
     (case stream (provider w) m sys t max_tokens of
        (g, p') \<Rightarrow>
          w\<lparr>provider := p',
            calls := calls w @ [\<lparr>args = (m, sys, t, max_tokens), frame = g,
                                 received = [], requests = 0\<rparr>]\<rparr>)"
| "act ext w (Request i) =
     (if i < length (calls w) then
        (case anext ext (provider w) (frame (calls w ! i)) of
           (r, g', p') \<Rightarrow>
             w\<lparr>provider := p',
               calls := (calls w)[i := (calls w ! i)
                  \<lparr>frame := g',
                   received := (case r of Yield e \<Rightarrow> received (calls w ! i) @ [e]
                                | StopAsyncIteration \<Rightarrow> received (calls w ! i)
                                | Raise err \<Rightarrow> received (calls w ! i)),
                   requests := Suc (requests (calls w ! i))\<rparr>],
               started := (if is_created (frame (calls w ! i)) then started w @ [i]
                           else started w)\<rparr>)
      else w)"
| "act ext w (Write a c) = w\<lparr>heap := (heap w)(a \<mapsto> c)\<rparr>"

definition run :: "externals \<Rightarrow> ('c, 'v) world \<Rightarrow> 'c action list \<Rightarrow> ('c, 'v) world" where
  "run ext w acts = foldl (act ext) w acts"

text \<open>
  A provider just built by \<^verbatim>\<open>MockLLMProvider(model, scenarios)\<close>, no call made.
\<close>

definition fresh :: "string \<Rightarrow> 'v StreamEvent list list option \<Rightarrow> (addr \<rightharpoonup> 'c) \<Rightarrow> ('c, 'v) world" where
  "fresh model_name scenarios_arg h =
     \<lparr>provider = init model_name scenarios_arg, heap = h, calls = [], started = []\<rparr>"

text \<open>
  The ledger entry and the first frame that belong to the arguments of a call, and
  the arguments of the calls of a schedule.
\<close>

fun ledger_entry :: "addr \<times> string \<times> addr option \<times> int \<Rightarrow> (addr, addr) invocation" where
  "ledger_entry (m, sys, t, max_tokens) = \<lparr>messages = m, system = sys, tools = t\<rparr>"

fun new_frame :: "addr \<times> string \<times> addr option \<times> int \<Rightarrow> (addr, addr, 'v) stream_gen" where
  "new_frame (m, sys, t, max_tokens) = Created m sys t max_tokens"

fun call_args :: "'c action \<Rightarrow> (addr \<times> string \<times> addr option \<times> int) list" where
  "call_args (Call m sys t max_tokens) = [(m, sys, t, max_tokens)]"
| "call_args (Request i) = []"
| "call_args (Write a c) = []"

text \<open>
  A call that was the \<open>N\<close>-th to begin (from 0) replays scenario \<open>N mod s\<close>: after
  \<open>k\<close> requests its caller has received the first \<open>k\<close> events of it, and its frame
  waits before the rest, or is closed when the request after the last event has been
  made.
\<close>

definition replay_ok :: "'v StreamEvent list list \<Rightarrow> nat \<Rightarrow> 'v call_entry \<Rightarrow> bool" where
  "replay_ok scs N c =
     (received c = take (requests c) (scs ! (N mod length scs))
      \<and> frame c = (if requests c \<le> length (scs ! (N mod length scs))
                   then AtEventYield (drop (requests c) (scs ! (N mod length scs)))
                   else Closed))"

text \<open>
  What holds of the world after every schedule: the ledger is the entries of the
  calls begun, in the order in which they began; the index counts them (with a
  non-empty scenario list); a call not yet requested holds its first frame; a call
  requested replays the scenario of its rank.
\<close>

definition world_inv :: "string \<Rightarrow> 'v StreamEvent list list \<Rightarrow> ('c, 'v) world \<Rightarrow> bool" where
  "world_inv name scs w =
     (model (provider w) = name
      \<and> scenarios (provider w) = scs
      \<and> stream_calls (provider w) = map (\<lambda>i. ledger_entry (args (calls w ! i))) (started w)
      \<and> call_index (provider w) = (if scs = [] then 0 else int (length (started w)))
      \<and> distinct (started w)
      \<and> set (started w) = {i. i < length (calls w) \<and> 0 < requests (calls w ! i)}
      \<and> (\<forall>i < length (calls w).
            (is_created (frame (calls w ! i)) \<longleftrightarrow> requests (calls w ! i) = 0)
            \<and> (requests (calls w ! i) = 0 \<longrightarrow>
                  frame (calls w ! i) = new_frame (args (calls w ! i))
                  \<and> received (calls w ! i) = [])
            \<and> (0 < requests (calls w ! i) \<and> scs \<noteq> [] \<longrightarrow>
                  (\<exists>N < length (started w). started w ! N = i \<and> replay_ok scs N (calls w ! i)))))"

section \<open>The consumer loop and the provider state, step by step\<close>


lemma collect_Closed: "collect ext p Closed = (Inr [], Closed, p)"
  by (simp add: collect.simps [of ext p Closed])

lemma collect_AtFinishYield: "collect ext p AtFinishYield = (Inr [], Closed, p)"
  by (simp add: collect.simps [of ext p AtFinishYield])

lemma collect_AtEndYield:
  "collect ext p AtEndYield = (Inr [FinishEvent ''mock_complete'' (model p) None None], Closed, p)"
  by (simp add: collect.simps [of ext p AtEndYield] collect_AtFinishYield)

lemma collect_AtEventYield: "collect ext p (AtEventYield es) = (Inr es, Closed, p)"
proof (induction es)
  case Nil
  show ?case by (simp add: collect.simps [of ext p "AtEventYield []"])
next
  case (Cons e es)
  then show ?case by (simp add: collect.simps [of ext p "AtEventYield (e # es)"])
qed

lemma collect_AtDeltaYield_Nil:
  "collect ext p (AtDeltaYield [] acc) =
     (Inr [TextEndEvent acc, FinishEvent ''mock_complete'' (model p) None None], Closed, p)"
  by (simp add: collect.simps [of ext p "AtDeltaYield [] acc"] collect_AtEndYield)

lemma collect_AtDeltaYield_Cons:
  "collect ext p (AtDeltaYield ((i, w) # rest) acc) =
     (case collect ext p (AtDeltaYield rest (acc @ (if i = 0 then w else '' '' @ w))) of
        (Inl err, g, p') \<Rightarrow> (Inl err, g, p')
      | (Inr es, g, p') \<Rightarrow>
          (Inr (TextDeltaEvent (if i = 0 then w else '' '' @ w)
                  (acc @ (if i = 0 then w else '' '' @ w)) # es), g, p'))"
  by (simp add: collect.simps [of ext p "AtDeltaYield ((i, w) # rest) acc"] Let_def)

lemma fallback_words:
  "str_split (CHR '' '') ''This is a mock response for testing purposes.''
     = [''This'', ''is'', ''a'', ''mock'', ''response'', ''for'', ''testing'', ''purposes.'']"
  by simp


lemma selected_in_range:
  "xs \<noteq> [] \<Longrightarrow> py_mod i (int (length xs)) = Inr (i mod int (length xs))"
  "xs \<noteq> [] \<Longrightarrow> py_getitem xs (i mod int (length xs)) = Inr (xs ! nat (i mod int (length xs)))"
  by (simp_all add: py_mod_def py_getitem_def)

lemma anext_Created_scenario:
  "scenarios p \<noteq> [] \<Longrightarrow>
   anext ext p (Created msgs sys tls mt) =
     next_event (scenarios p ! nat (call_index p mod int (length (scenarios p))))
       (p\<lparr>stream_calls := stream_calls p @ [\<lparr>messages = msgs, system = sys, tools = tls\<rparr>],
          call_index := call_index p + 1\<rparr>)"
  by (simp add: Let_def selected_in_range)

lemma anext_Created_fallback:
  "scenarios p = [] \<Longrightarrow>
   anext ext p (Created msgs sys tls mt) =
     (Yield (TextDeltaEvent ''This'' ''This''),
      AtDeltaYield [(1, ''is''), (2, ''a''), (3, ''mock''), (4, ''response''), (5, ''for''),
                    (6, ''testing''), (7, ''purposes.'')] ''This'',
      p\<lparr>stream_calls := stream_calls p @ [\<lparr>messages = msgs, system = sys, tools = tls\<rparr>]\<rparr>)"
  by (simp add: Let_def generate_mock_response_def fallback_words enumerate_eq_zip upt_rec)

lemma collect_Created_scenario:
  assumes "scenarios p \<noteq> []"
  shows "collect ext p (Created msgs sys tls mt) =
     (Inr (scenarios p ! nat (call_index p mod int (length (scenarios p)))), Closed,
      p\<lparr>stream_calls := stream_calls p @ [\<lparr>messages = msgs, system = sys, tools = tls\<rparr>],
        call_index := call_index p + 1\<rparr>)"
proof (cases "scenarios p ! nat (call_index p mod int (length (scenarios p)))")
  case Nil
  with assms show ?thesis
    by (simp add: collect.simps [of ext p "Created msgs sys tls mt"] anext_Created_scenario
             del: anext.simps)
next
  case (Cons e es)
  with assms show ?thesis
    by (simp add: collect.simps [of ext p "Created msgs sys tls mt"] anext_Created_scenario
                  collect_AtEventYield
             del: anext.simps)
qed

lemma collect_Created_fallback:
  assumes "scenarios p = []"
  shows "collect ext p (Created msgs sys tls mt) =
     (Inr [TextDeltaEvent ''This'' ''This'',
           TextDeltaEvent '' is'' ''This is'',
           TextDeltaEvent '' a'' ''This is a'',
           TextDeltaEvent '' mock'' ''This is a mock'',
           TextDeltaEvent '' response'' ''This is a mock response'',
           TextDeltaEvent '' for'' ''This is a mock response for'',
           TextDeltaEvent '' testing'' ''This is a mock response for testing'',
           TextDeltaEvent '' purposes.'' ''This is a mock response for testing purposes.'',
           TextEndEvent ''This is a mock response for testing purposes.'',
           FinishEvent ''mock_complete'' (model p) None None],
      Closed,
      p\<lparr>stream_calls := stream_calls p @ [\<lparr>messages = msgs, system = sys, tools = tls\<rparr>]\<rparr>)"
  using assms
  by (simp add: collect.simps [of ext p "Created msgs sys tls mt"] anext_Created_fallback
                collect_AtDeltaYield_Cons collect_AtDeltaYield_Nil
           del: anext.simps)


lemma next_event_frame:
  "next_event es p = (r, g', p') \<Longrightarrow> p' = p \<and> \<not> is_created g'"
  by (cases es) auto

lemma next_word_frame:
  "next_word ws acc p = (r, g', p') \<Longrightarrow> p' = p \<and> \<not> is_created g'"
  by (cases "(ws, acc, p)" rule: next_word.cases) (auto simp: Let_def)

lemma anext_started:
  "\<not> is_created g \<Longrightarrow> anext ext p g = (r, g', p') \<Longrightarrow> p' = p \<and> \<not> is_created g'"
  by (cases g) (auto dest: next_event_frame next_word_frame)

lemma anext_Created:
  "anext ext p (Created msgs sys tls mt) = (r, g', p') \<Longrightarrow>
   \<not> is_created g' \<and>
   p' = p\<lparr>stream_calls := stream_calls p @ [\<lparr>messages = msgs, system = sys, tools = tls\<rparr>],
          call_index := (if scenarios p \<noteq> [] then call_index p + 1 else call_index p)\<rparr>"
  by (cases "scenarios p = []")
     (auto simp: anext_Created_scenario anext_Created_fallback simp del: anext.simps
           dest: next_event_frame)

lemma consume_started:
  "\<not> is_created g \<Longrightarrow> snd (snd (consume k ext p g)) = p"
proof (induction k arbitrary: g)
  case 0
  show ?case by simp
next
  case (Suc k)
  obtain r g' p' where a: "anext ext p g = (r, g', p')" by (cases "anext ext p g") auto
  with Suc.prems have b: "p' = p" "\<not> is_created g'" using anext_started by blast+
  show ?case
  proof (cases r)
    case (Yield e)
    with a b Suc.IH [of g'] show ?thesis by (simp add: split_beta del: anext.simps)
  qed (use a b in \<open>simp_all del: anext.simps\<close>)
qed

lemma consume_Suc_Created:
  "snd (snd (consume (Suc k) ext p (Created msgs sys tls mt))) =
     p\<lparr>stream_calls := stream_calls p @ [\<lparr>messages = msgs, system = sys, tools = tls\<rparr>],
       call_index := (if scenarios p \<noteq> [] then call_index p + 1 else call_index p)\<rparr>"
proof -
  obtain r g' p' where a: "anext ext p (Created msgs sys tls mt) = (r, g', p')"
    by (cases "anext ext p (Created msgs sys tls mt)") auto
  note b = anext_Created [OF a]
  show ?thesis
  proof (cases r)
    case (Yield e)
    with a b consume_started [of g' k ext p'] show ?thesis
      by (simp add: split_beta del: anext.simps)
  qed (use a b in \<open>simp_all del: anext.simps\<close>)
qed

lemma after_call_eq:
  "after_call ext p msgs sys tls mt =
     p\<lparr>stream_calls := stream_calls p @ [\<lparr>messages = msgs, system = sys, tools = tls\<rparr>],
       call_index := (if scenarios p \<noteq> [] then call_index p + 1 else call_index p)\<rparr>"
  by (cases "scenarios p = []")
     (simp_all add: after_call_def stream_def collect_Created_scenario collect_Created_fallback)

lemma emitted_scenario:
  "scenarios p \<noteq> [] \<Longrightarrow>
   emitted ext p msgs sys tls mt
     = Inr (scenarios p ! nat (call_index p mod int (length (scenarios p))))"
  by (simp add: emitted_def stream_def collect_Created_scenario)

lemma emitted_fallback:
  "scenarios p = [] \<Longrightarrow>
   emitted ext p msgs sys tls mt =
     Inr [TextDeltaEvent ''This'' ''This'',
          TextDeltaEvent '' is'' ''This is'',
          TextDeltaEvent '' a'' ''This is a'',
          TextDeltaEvent '' mock'' ''This is a mock'',
          TextDeltaEvent '' response'' ''This is a mock response'',
          TextDeltaEvent '' for'' ''This is a mock response for'',
          TextDeltaEvent '' testing'' ''This is a mock response for testing'',
          TextDeltaEvent '' purposes.'' ''This is a mock response for testing purposes.'',
          TextEndEvent ''This is a mock response for testing purposes.'',
          FinishEvent ''mock_complete'' (model p) None None]"
  by (simp add: emitted_def stream_def collect_Created_fallback)

lemma run_calls_ledger:
  "stream_calls (snd (run_calls ext p cs)) =
     stream_calls p @ map (\<lambda>(msgs, sys, tls, mt). \<lparr>messages = msgs, system = sys, tools = tls\<rparr>) cs"
proof (induction cs arbitrary: p)
  case Nil
  show ?case by simp
next
  case (Cons c cs)
  obtain msgs sys tls mt where c: "c = (msgs, sys, tls, mt)" by (cases c) auto
  show ?case
    using Cons.IH [of "after_call ext p msgs sys tls mt"]
    by (simp add: c split_beta after_call_eq)
qed

lemma run_calls_events:
  "scenarios p \<noteq> [] \<Longrightarrow>
   fst (run_calls ext p cs) =
     map (\<lambda>N. Inr (scenarios p ! nat ((call_index p + int N) mod int (length (scenarios p)))))
       [0..<length cs]"
proof (induction cs arbitrary: p)
  case Nil
  show ?case by simp
next
  case (Cons c cs)
  obtain msgs sys tls mt where c: "c = (msgs, sys, tls, mt)" by (cases c) auto
  let ?p = "after_call ext p msgs sys tls mt"
  have p': "scenarios ?p = scenarios p" "call_index ?p = call_index p + 1"
    using Cons.prems by (simp_all add: after_call_eq)
  have "fst (run_calls ext ?p cs) =
     map (\<lambda>N. Inr (scenarios p ! nat ((call_index p + int (Suc N)) mod int (length (scenarios p)))))
       [0..<length cs]"
    using Cons.IH [of ?p] Cons.prems by (simp add: p' add.commute add.left_commute)
  then show ?case
    using Cons.prems
    by (simp add: c split_beta emitted_scenario map_upt_Suc del: upt_Suc)
qed

subsection \<open>The fallback sequence and the steps that cannot raise\<close>

lemma terminal_ok_fallback:
  "terminal_ok
     [TextDeltaEvent ''This'' ''This'',
      TextDeltaEvent '' is'' ''This is'',
      TextDeltaEvent '' a'' ''This is a'',
      TextDeltaEvent '' mock'' ''This is a mock'',
      TextDeltaEvent '' response'' ''This is a mock response'',
      TextDeltaEvent '' for'' ''This is a mock response for'',
      TextDeltaEvent '' testing'' ''This is a mock response for testing'',
      TextDeltaEvent '' purposes.'' ''This is a mock response for testing purposes.'',
      TextEndEvent ''This is a mock response for testing purposes.'',
      FinishEvent ''mock_complete'' m None None]"
  by (simp add: terminal_ok_def is_terminal_def)

lemma snapshots_ok_fallback:
  "snapshots_ok
     [TextDeltaEvent ''This'' ''This'',
      TextDeltaEvent '' is'' ''This is'',
      TextDeltaEvent '' a'' ''This is a'',
      TextDeltaEvent '' mock'' ''This is a mock'',
      TextDeltaEvent '' response'' ''This is a mock response'',
      TextDeltaEvent '' for'' ''This is a mock response for'',
      TextDeltaEvent '' testing'' ''This is a mock response for testing'',
      TextDeltaEvent '' purposes.'' ''This is a mock response for testing purposes.'',
      TextEndEvent ''This is a mock response for testing purposes.'',
      FinishEvent ''mock_complete'' m None None]"
  by (simp add: snapshots_ok_def All_less_Suc)

lemma text_end_ok_fallback:
  "text_end_ok
     [TextDeltaEvent ''This'' ''This'',
      TextDeltaEvent '' is'' ''This is'',
      TextDeltaEvent '' a'' ''This is a'',
      TextDeltaEvent '' mock'' ''This is a mock'',
      TextDeltaEvent '' response'' ''This is a mock response'',
      TextDeltaEvent '' for'' ''This is a mock response for'',
      TextDeltaEvent '' testing'' ''This is a mock response for testing'',
      TextDeltaEvent '' purposes.'' ''This is a mock response for testing purposes.'',
      TextEndEvent ''This is a mock response for testing purposes.'',
      FinishEvent ''mock_complete'' m None None]"
  by (simp add: text_end_ok_def All_less_Suc)

lemma anext_never_raises: "fst (anext ext p g) \<noteq> Raise err"
proof (cases g)
  case (Created msgs sys tls mt)
  show ?thesis
  proof (cases "scenarios p = []")
    case True
    with Created show ?thesis by (simp add: anext_Created_fallback del: anext.simps)
  next
    case False
    with Created show ?thesis
      by (cases "scenarios p ! nat (call_index p mod int (length (scenarios p)))")
         (simp_all add: anext_Created_scenario del: anext.simps)
  qed
next
  case (AtEventYield rest)
  then show ?thesis by (cases rest) simp_all
next
  case (AtDeltaYield rest acc)
  then show ?thesis by (cases "(rest, acc, p)" rule: next_word.cases) (simp_all add: Let_def)
qed simp_all

subsection \<open>Every schedule keeps the world well-formed\<close>

lemma world_inv_fresh: "world_inv name (case scs of None \<Rightarrow> [] | Some s \<Rightarrow> s) (fresh name scs h)"
  by (auto simp: world_inv_def fresh_def init_def split: option.splits)

lemma world_inv_Write: "world_inv name scs w \<Longrightarrow> world_inv name scs (act ext w (Write a c))"
  by (simp add: world_inv_def)

lemma world_inv_Call:
  fixes w :: "('c, 'v) world"
  assumes "world_inv name scs w"
  shows "world_inv name scs (act ext w (Call m sys t mt))"
proof -
  let ?c = "\<lparr>args = (m, sys, t, mt), frame = Created m sys t mt, received = [], requests = 0\<rparr>
             :: 'v call_entry"
  let ?w = "act ext w (Call m sys t mt)"
  have w': "?w = w\<lparr>calls := calls w @ [?c]\<rparr>"
    by (simp add: stream_def)
  have sub: "\<And>i. i \<in> set (started w) \<Longrightarrow> i < length (calls w)"
    using assms by (auto simp: world_inv_def)
  have "map (\<lambda>i. ledger_entry (args ((calls w @ [?c]) ! i))) (started w)
        = map (\<lambda>i. ledger_entry (args (calls w ! i))) (started w)"
    by (rule map_cong) (auto simp: nth_append dest: sub)
  moreover have "{i. i < length (calls w @ [?c]) \<and> 0 < requests ((calls w @ [?c]) ! i)}
        = {i. i < length (calls w) \<and> 0 < requests (calls w ! i)}"
    by (auto simp: nth_append less_Suc_eq)
  ultimately show ?thesis
    using assms unfolding w'
    by (auto simp: world_inv_def nth_append less_Suc_eq)
qed

lemma replay_step:
  assumes "replay_ok scs N c" and "anext ext p (frame c) = (r, g', p')"
  shows "replay_ok scs N
           (c\<lparr>frame := g',
              received := (case r of Yield e \<Rightarrow> received c @ [e]
                           | StopAsyncIteration \<Rightarrow> received c
                           | Raise err \<Rightarrow> received c),
              requests := Suc (requests c)\<rparr>)"
proof -
  let ?sel = "scs ! (N mod length scs)"
  let ?k = "requests c"
  consider "?k < length ?sel" | "?k = length ?sel" | "length ?sel < ?k" by linarith
  then show ?thesis
  proof cases
    case 1
    then have d: "drop ?k ?sel = ?sel ! ?k # drop (Suc ?k) ?sel"
      by (simp add: Cons_nth_drop_Suc)
    from 1 assms(1) have "frame c = AtEventYield (drop ?k ?sel)"
      by (simp add: replay_ok_def)
    then have "anext ext p (frame c) = (Yield (?sel ! ?k), AtEventYield (drop (Suc ?k) ?sel), p)"
      by (simp add: d)
    with assms(2) have "r = Yield (?sel ! ?k)" "g' = AtEventYield (drop (Suc ?k) ?sel)"
      by simp_all
    moreover from assms(1) have "received c = take ?k ?sel" by (simp add: replay_ok_def)
    ultimately show ?thesis
      using 1 by (simp add: replay_ok_def take_Suc_conv_app_nth)
  next
    case 2
    with assms have "frame c = AtEventYield []" by (simp add: replay_ok_def)
    with assms 2 show ?thesis by (auto simp: replay_ok_def)
  next
    case 3
    with assms have "frame c = Closed" by (simp add: replay_ok_def)
    with assms 3 show ?thesis by (auto simp: replay_ok_def)
  qed
qed

lemma replay_first:
  assumes "scenarios p \<noteq> []" and "call_index p = int N"
    and "anext ext p (Created m sys t mt) = (r, g', p')"
  shows "replay_ok (scenarios p) N
           (c\<lparr>frame := g',
              received := (case r of Yield e \<Rightarrow> [e]
                           | StopAsyncIteration \<Rightarrow> []
                           | Raise err \<Rightarrow> []),
              requests := Suc 0\<rparr>)"
proof -
  let ?sel = "scenarios p ! (N mod length (scenarios p))"
  have sel: "scenarios p ! nat (call_index p mod int (length (scenarios p))) = ?sel"
    using assms(2) by (simp add: nat_mod_distrib)
  show ?thesis
  proof (cases ?sel)
    case Nil
    with assms sel show ?thesis
      by (auto simp: replay_ok_def anext_Created_scenario simp del: anext.simps)
  next
    case (Cons e es)
    with assms sel show ?thesis
      by (auto simp: replay_ok_def anext_Created_scenario simp del: anext.simps)
  qed
qed

lemma world_inv_Request:
  fixes w :: "('c, 'v) world"
  assumes inv: "world_inv name scs w"
  shows "world_inv name scs (act ext w (Request i))"
proof (cases "i < length (calls w)")
  case False
  with inv show ?thesis by simp
next
  case len: True
  let ?p = "provider w"
  let ?c = "calls w ! i"
  obtain r g' p' where a: "anext ext ?p (frame ?c) = (r, g', p')"
    by (cases "anext ext ?p (frame ?c)") auto
  let ?c' = "?c\<lparr>frame := g',
                 received := (case r of Yield e \<Rightarrow> received ?c @ [e]
                              | StopAsyncIteration \<Rightarrow> received ?c
                              | Raise err \<Rightarrow> received ?c),
                 requests := Suc (requests ?c)\<rparr>"
  let ?st' = "if is_created (frame ?c) then started w @ [i] else started w"
  let ?w' = "w\<lparr>provider := p', calls := (calls w)[i := ?c'], started := ?st'\<rparr>"
  have w': "act ext w (Request i) = ?w'"
    using len a by (simp del: anext.simps)
  have nth': "\<And>j. j < length (calls w) \<Longrightarrow>
                (calls w)[i := ?c'] ! j = (if j = i then ?c' else calls w ! j)"
    using len by (simp add: nth_list_update)
  have args': "\<And>j. j < length (calls w) \<Longrightarrow> args ((calls w)[i := ?c'] ! j) = args (calls w ! j)"
    using len by (simp add: nth_list_update)
  from inv have p: "model ?p = name" "scenarios ?p = scs"
    and led: "stream_calls ?p = map (\<lambda>i. ledger_entry (args (calls w ! i))) (started w)"
    and idx: "call_index ?p = (if scs = [] then 0 else int (length (started w)))"
    and dist: "distinct (started w)"
    and st: "set (started w) = {i. i < length (calls w) \<and> 0 < requests (calls w ! i)}"
    and ent: "\<And>j. j < length (calls w) \<Longrightarrow>
            (is_created (frame (calls w ! j)) \<longleftrightarrow> requests (calls w ! j) = 0)
            \<and> (requests (calls w ! j) = 0 \<longrightarrow>
                  frame (calls w ! j) = new_frame (args (calls w ! j))
                  \<and> received (calls w ! j) = [])
            \<and> (0 < requests (calls w ! j) \<and> scs \<noteq> [] \<longrightarrow>
                  (\<exists>N < length (started w). started w ! N = j \<and> replay_ok scs N (calls w ! j)))"
    by (simp_all add: world_inv_def)
  have led_args: "map (\<lambda>j. ledger_entry (args ((calls w)[i := ?c'] ! j))) (started w)
                  = map (\<lambda>j. ledger_entry (args (calls w ! j))) (started w)"
    by (rule map_cong) (use st args' in auto)
  show ?thesis
  proof (cases "requests ?c = 0")
    case fresh_call: True
    with ent [OF len] have cr: "is_created (frame ?c)"
      and fr: "frame ?c = new_frame (args ?c)" and rc: "received ?c = []"
      by blast+
    obtain m sys t mt where ar: "args ?c = (m, sys, t, mt)" by (cases "args ?c") auto
    with fr have fr': "frame ?c = Created m sys t mt" by simp
    from a fr' have a': "anext ext ?p (Created m sys t mt) = (r, g', p')" by simp
    note ac = anext_Created [OF a']
    have notin: "i \<notin> set (started w)" using st fresh_call by simp
    have c1: "model p' = name" "scenarios p' = scs" using ac p by simp_all
    have c2: "stream_calls p' = map (\<lambda>j. ledger_entry (args ((calls w)[i := ?c'] ! j))) ?st'"
      using ac cr led led_args len ar by (simp add: nth_list_update)
    have c3: "call_index p' = (if scs = [] then 0 else int (length ?st'))"
      using ac cr idx p by simp
    have c4: "distinct ?st'" using cr dist notin by simp
    have c5: "set ?st' = {j. j < length ((calls w)[i := ?c']) \<and> 0 < requests ((calls w)[i := ?c'] ! j)}"
      using cr st len by (auto simp: nth_list_update)
    have c6: "(is_created (frame ((calls w)[i := ?c'] ! j)) \<longleftrightarrow> requests ((calls w)[i := ?c'] ! j) = 0)
            \<and> (requests ((calls w)[i := ?c'] ! j) = 0 \<longrightarrow>
                  frame ((calls w)[i := ?c'] ! j) = new_frame (args ((calls w)[i := ?c'] ! j))
                  \<and> received ((calls w)[i := ?c'] ! j) = [])
            \<and> (0 < requests ((calls w)[i := ?c'] ! j) \<and> scs \<noteq> [] \<longrightarrow>
                  (\<exists>N < length ?st'. ?st' ! N = j \<and> replay_ok scs N ((calls w)[i := ?c'] ! j)))"
      if j: "j < length (calls w)" for j
    proof (cases "j = i")
      case True
      have "replay_ok scs (length (started w)) ?c'" if "scs \<noteq> []"
        using replay_first [of ?p "length (started w)" ext m sys t mt r g' p' ?c] that p idx a' rc
          fresh_call
        by (simp del: anext.simps cong: outcome.case_cong)
      then have "scs \<noteq> [] \<longrightarrow> (\<exists>N < length ?st'. ?st' ! N = i \<and> replay_ok scs N ?c')"
        using cr by (auto intro!: exI [of _ "length (started w)"])
      with True j ac show ?thesis by (simp add: nth_list_update)
    next
      case False
      from ent [OF j] have
        "0 < requests (calls w ! j) \<and> scs \<noteq> [] \<longrightarrow>
           (\<exists>N < length ?st'. ?st' ! N = j \<and> replay_ok scs N (calls w ! j))"
        using cr by (auto simp: nth_append intro: less_SucI)
      with False j ent [OF j] show ?thesis by (simp add: nth_list_update)
    qed
    show ?thesis
      unfolding w' world_inv_def using c1 c2 c3 c4 c5 c6 by simp
  next
    case running: False
    with ent [OF len] have cr: "\<not> is_created (frame ?c)" by simp
    from anext_started [OF cr a] have ac: "p' = ?p" "\<not> is_created g'" by simp_all
    have c5: "set (started w) = {j. j < length ((calls w)[i := ?c']) \<and> 0 < requests ((calls w)[i := ?c'] ! j)}"
      using st len running by (auto simp: nth_list_update)
    have c6: "(is_created (frame ((calls w)[i := ?c'] ! j)) \<longleftrightarrow> requests ((calls w)[i := ?c'] ! j) = 0)
            \<and> (requests ((calls w)[i := ?c'] ! j) = 0 \<longrightarrow>
                  frame ((calls w)[i := ?c'] ! j) = new_frame (args ((calls w)[i := ?c'] ! j))
                  \<and> received ((calls w)[i := ?c'] ! j) = [])
            \<and> (0 < requests ((calls w)[i := ?c'] ! j) \<and> scs \<noteq> [] \<longrightarrow>
                  (\<exists>N < length (started w). started w ! N = j \<and> replay_ok scs N ((calls w)[i := ?c'] ! j)))"
      if j: "j < length (calls w)" for j
    proof (cases "j = i")
      case True
      have "\<exists>N < length (started w). started w ! N = i \<and> replay_ok scs N ?c'" if "scs \<noteq> []"
      proof -
        from ent [OF len] running that obtain N where
          N: "N < length (started w)" "started w ! N = i" "replay_ok scs N ?c"
          by auto
        from replay_step [OF N(3) a] N(1,2) show ?thesis by blast
      qed
      with True j ac show ?thesis by (simp add: nth_list_update)
    next
      case False
      with j ent [OF j] show ?thesis by (simp add: nth_list_update)
    qed
    show ?thesis
      unfolding w' world_inv_def using p led led_args idx dist c5 c6 ac cr by simp
  qed
qed

lemma world_inv_act: "world_inv name scs w \<Longrightarrow> world_inv name scs (act ext w a)"
  by (cases a) (simp_all only: world_inv_Call world_inv_Request world_inv_Write)

lemma world_inv_run: "world_inv name scs w \<Longrightarrow> world_inv name scs (run ext w acts)"
  unfolding run_def by (induction acts arbitrary: w) (simp_all add: world_inv_act del: act.simps)

lemma world_inv_reachable:
  "world_inv name (case scs of None \<Rightarrow> [] | Some s \<Rightarrow> s) (run ext (fresh name scs h) acts)"
  by (rule world_inv_run) (rule world_inv_fresh)

lemma args_act: "map args (calls (act ext w a)) = map args (calls w) @ call_args a"
proof (cases a)
  case (Call m sys t mt)
  then show ?thesis by (simp add: stream_def)
next
  case (Request i)
  show ?thesis
  proof (cases "i < length (calls w)")
    case True
    obtain r g' p' where "anext ext (provider w) (frame (calls w ! i)) = (r, g', p')"
      by (cases "anext ext (provider w) (frame (calls w ! i))") auto
    with True Request show ?thesis
      by (auto simp: nth_list_update simp del: anext.simps intro!: nth_equalityI)
  next
    case False
    with Request show ?thesis by simp
  qed
next
  case (Write a c)
  then show ?thesis by simp
qed

lemma args_run:
  "map args (calls (run ext w acts)) = map args (calls w) @ concat (map call_args acts)"
  unfolding run_def
  by (induction acts arbitrary: w) (simp_all add: args_act del: act.simps)

lemma first_request_appends:
  assumes "world_inv name scs w" and "i < length (calls w)" and "requests (calls w ! i) = 0"
  shows "stream_calls (provider (act ext w (Request i)))
           = stream_calls (provider w) @ [ledger_entry (args (calls w ! i))]"
proof -
  from assms have fr: "frame (calls w ! i) = new_frame (args (calls w ! i))"
    by (simp add: world_inv_def)
  obtain m sys t mt where ar: "args (calls w ! i) = (m, sys, t, mt)"
    by (cases "args (calls w ! i)") auto
  obtain r g' p' where a: "anext ext (provider w) (Created m sys t mt) = (r, g', p')"
    by (cases "anext ext (provider w) (Created m sys t mt)") auto
  from anext_Created [OF a] a fr ar assms(2) show ?thesis
    by (simp del: anext.simps)
qed

lemma later_request_keeps:
  assumes "world_inv name scs w" and "i < length (calls w)" and "0 < requests (calls w ! i)"
  shows "provider (act ext w (Request i)) = provider w"
proof -
  from assms have cr: "\<not> is_created (frame (calls w ! i))"
    by (simp add: world_inv_def)
  obtain r g' p' where a: "anext ext (provider w) (frame (calls w ! i)) = (r, g', p')"
    by (cases "anext ext (provider w) (frame (calls w ! i))") auto
  from anext_started [OF cr a] a assms(2) show ?thesis
    by (simp del: anext.simps)
qed

lemma replay_at_rank:
  assumes inv: "world_inv name scs w" and "scs \<noteq> []" and N: "N < length (started w)"
  shows "started w ! N < length (calls w) \<and> 0 < requests (calls w ! (started w ! N))
         \<and> replay_ok scs N (calls w ! (started w ! N))"
proof -
  let ?i = "started w ! N"
  from inv N have i: "?i < length (calls w)" "0 < requests (calls w ! ?i)"
    using nth_mem [OF N] by (auto simp: world_inv_def)
  with inv assms(2) obtain M where
    M: "M < length (started w)" "started w ! M = ?i" "replay_ok scs M (calls w ! ?i)"
    unfolding world_inv_def by blast
  from inv have "distinct (started w)" by (simp add: world_inv_def)
  with M N have "M = N" by (simp add: nth_eq_iff_index_eq)
  with M i show ?thesis by simp
qed

section \<open>The claims\<close>

subsection \<open>C1: when the call is recorded and the index advances\<close>

text \<open>
  C1 as the spec states it: for every call to \<^verbatim>\<open>stream()\<close> the append to the call
  ledger and the advance of the scenario index happen exactly once, synchronously at
  call entry, before any event is produced, also when the caller consumes zero events.

  The code does otherwise at one provider built as in the test-suite: after
  \<^verbatim>\<open>provider.stream(...)\<close> has returned and nothing has been requested from the
  generator, \<^verbatim>\<open>stream_calls\<close> is still empty and \<^verbatim>\<open>_call_index\<close> is still 0.
\<close>

theorem C1_counterexample:
  "stream_calls (snd (stream (init ''mock-model'' (Some [text_scenario ''only'' 10 5])
                        :: (string list, string list, nat) MockLLMProvider)
                   [''hi''] ''Be helpful'' None 4096)) = []
   \<and> call_index (snd (stream (init ''mock-model'' (Some [text_scenario ''only'' 10 5])
                        :: (string list, string list, nat) MockLLMProvider)
                   [''hi''] ''Be helpful'' None 4096)) = 0"
  by (simp add: stream_def init_def)

text \<open>
  C1 as amended: the call itself changes nothing, and neither does a consumer that
  requests nothing. The first request (\<^verbatim>\<open>__anext__\<close>) on the returned generator
  appends the invocation record, once, and advances the index by one when the
  scenario list is non-empty (not at all when it is empty); both are done in that
  same step, before its event is handed over. However many further items are
  requested (\<open>Suc k\<close> requests in all), the provider stays as the first request
  left it.
\<close>

theorem C1_record_and_advance_at_first_request:
  "snd (stream p msgs sys tls mt) = p
   \<and> snd (snd (consume 0 ext p (fst (stream p msgs sys tls mt)))) = p
   \<and> snd (snd (anext ext p (fst (stream p msgs sys tls mt)))) =
       p\<lparr>stream_calls := stream_calls p @ [\<lparr>messages = msgs, system = sys, tools = tls\<rparr>],
         call_index := (if scenarios p \<noteq> [] then call_index p + 1 else call_index p)\<rparr>
   \<and> snd (snd (consume (Suc k) ext p (fst (stream p msgs sys tls mt)))) =
       p\<lparr>stream_calls := stream_calls p @ [\<lparr>messages = msgs, system = sys, tools = tls\<rparr>],
         call_index := (if scenarios p \<noteq> [] then call_index p + 1 else call_index p)\<rparr>"
proof -
  have "snd (snd (anext ext p (Created msgs sys tls mt))) =
       p\<lparr>stream_calls := stream_calls p @ [\<lparr>messages = msgs, system = sys, tools = tls\<rparr>],
         call_index := (if scenarios p \<noteq> [] then call_index p + 1 else call_index p)\<rparr>"
    using anext_Created [of ext p msgs sys tls mt]
    by (cases "anext ext p (Created msgs sys tls mt)") (simp del: anext.simps)
  then show ?thesis
    by (simp add: stream_def consume_Suc_Created del: anext.simps consume.simps(2))
qed

theorem C1_witness:
  "snd (snd (consume (Suc 0)
        \<lparr>extract_output_keys = str_split (CHR '',''), json_dumps = concat \<circ> map snd\<rparr>
        (init ''mock-model'' (Some [text_scenario ''only'' 10 5]) :: (string list, string list, nat) MockLLMProvider)
        (fst (stream (init ''mock-model'' (Some [text_scenario ''only'' 10 5])) [''hi''] ''Be helpful'' None 4096))))
   = \<lparr>model = ''mock-model'', scenarios = [text_scenario ''only'' 10 5], call_index = 1,
      stream_calls = [\<lparr>messages = [''hi''], system = ''Be helpful'', tools = None\<rparr>]\<rparr>"
  using C1_record_and_advance_at_first_request
    [of "init ''mock-model'' (Some [text_scenario ''only'' 10 5]) :: (string list, string list, nat) MockLLMProvider"
        "[''hi'']" "''Be helpful''" None 4096
        "\<lparr>extract_output_keys = str_split (CHR '',''), json_dumps = concat \<circ> map snd\<rparr>" 0]
  by (simp add: init_def text_scenario_def del: consume.simps anext.simps)

subsection \<open>C2: cycling through the scenarios\<close>

text \<open>
  C2 as the spec states it: on a provider with a non-empty list of \<open>s\<close>
  scenarios, the \<^verbatim>\<open>stream()\<close> call made after \<open>N\<close> prior calls re-emits exactly the
  events of scenario \<open>N mod s\<close>.

  With the scenarios \<open>[first, second]\<close>, a first call is made and never iterated;
  the second call, made after one prior call, emits \<open>first\<close>, and scenario
  \<open>1 mod 2\<close> is \<open>second\<close>.
\<close>

theorem C2_counterexample:
  "emitted \<lparr>extract_output_keys = str_split (CHR '',''), json_dumps = concat \<circ> map snd\<rparr>
     (snd (stream (init ''mock-model''
                     (Some [text_scenario ''first'' 10 5, text_scenario ''second'' 10 5])
                   :: (string list, string list, nat) MockLLMProvider)
             [''hi''] [] None 4096))
     [''hi''] [] None 4096
     = Inr (text_scenario ''first'' 10 5)
   \<and> [text_scenario ''first'' 10 5, text_scenario ''second'' 10 5 :: nat StreamEvent list] ! (1 mod 2)
       = text_scenario ''second'' 10 5
   \<and> text_scenario ''first'' 10 5 \<noteq> (text_scenario ''second'' 10 5 :: nat StreamEvent list)"
  by (simp add: stream_def emitted_scenario init_def text_scenario_def)

text \<open>
  C2 as amended: what counts is the order in which the calls are first requested.
  On a provider built with a non-empty list of \<open>s\<close> scenarios, whatever the order
  of the calls and of the requests, the call that is first requested after exactly
  \<open>N\<close> other calls have been first requested re-emits scenario \<open>N mod s\<close>,
  unchanged and in order: after \<open>k\<close> requests its caller has received the first
  \<open>k\<close> events of that scenario, and the generator is closed exactly when more
  requests have been made than the scenario has events; the index is the number of
  calls requested at least once, so a call never requested does not count. When
  every call is consumed before the next is made (\<open>run_calls\<close>), the \<open>K\<close>-th call
  (from 0) emits scenario \<open>K mod s\<close>: \<open>[A, B]\<close> gives \<open>A, B, A, B\<close> and \<open>[A]\<close>
  gives \<open>A\<close> every time.
\<close>

theorem C2_cycling_by_first_request:
  fixes scs :: "'v StreamEvent list list" and h :: "addr \<rightharpoonup> 'c"
  assumes "scs \<noteq> []"
    and "N < length (started (run ext (fresh name (Some scs) h) acts))"
  shows "(let w = run ext (fresh name (Some scs) h) acts;
              c = calls w ! (started w ! N);
              sel = scs ! (N mod length scs)
          in 0 < requests c
             \<and> received c = take (requests c) sel
             \<and> (frame c = Closed \<longleftrightarrow> length sel < requests c)
             \<and> call_index (provider w) = int (length (started w)))
         \<and> fst (run_calls ext (init name (Some scs) :: ('m, 't, 'v) MockLLMProvider) cs)
             = map (\<lambda>K. Inr (scs ! (K mod length scs))) [0..<length cs]"
proof -
  let ?w = "run ext (fresh name (Some scs) h) acts"
  have inv: "world_inv name scs ?w"
    using world_inv_reachable [of name "Some scs" ext h acts] by simp
  from replay_at_rank [OF inv assms(1) assms(2)]
  have "0 < requests (calls ?w ! (started ?w ! N))"
    and "replay_ok scs N (calls ?w ! (started ?w ! N))"
    by simp_all
  moreover from inv assms(1) have "call_index (provider ?w) = int (length (started ?w))"
    by (simp add: world_inv_def)
  moreover have "nat (int K mod int (length scs)) = K mod length scs" for K
    by (simp add: nat_mod_distrib)
  with run_calls_events [of "init name (Some scs) :: ('m, 't, 'v) MockLLMProvider" ext cs] assms(1)
  have "fst (run_calls ext (init name (Some scs) :: ('m, 't, 'v) MockLLMProvider) cs)
             = map (\<lambda>K. Inr (scs ! (K mod length scs))) [0..<length cs]"
    by (simp add: init_def)
  ultimately show ?thesis
    by (auto simp: Let_def replay_ok_def split: if_splits)
qed

theorem C2_witness:
  "received (calls (run \<lparr>extract_output_keys = str_split (CHR '',''), json_dumps = concat \<circ> map snd\<rparr>
          (fresh ''mock-model''
             (Some [text_scenario ''first'' 10 5, text_scenario ''second'' 10 5 :: nat StreamEvent list])
             (Map.empty :: addr \<rightharpoonup> string list))
          [Call 0 [] None 4096, Call 0 [] None 4096, Call 0 [] None 4096,
           Request 2, Request 1, Request 2, Request 2]) ! 2) = text_scenario ''first'' 10 5
   \<and> frame (calls (run \<lparr>extract_output_keys = str_split (CHR '',''), json_dumps = concat \<circ> map snd\<rparr>
          (fresh ''mock-model''
             (Some [text_scenario ''first'' 10 5, text_scenario ''second'' 10 5 :: nat StreamEvent list])
             (Map.empty :: addr \<rightharpoonup> string list))
          [Call 0 [] None 4096, Call 0 [] None 4096, Call 0 [] None 4096,
           Request 2, Request 1, Request 2, Request 2]) ! 2) = Closed
   \<and> received (calls (run \<lparr>extract_output_keys = str_split (CHR '',''), json_dumps = concat \<circ> map snd\<rparr>
          (fresh ''mock-model''
             (Some [text_scenario ''first'' 10 5, text_scenario ''second'' 10 5 :: nat StreamEvent list])
             (Map.empty :: addr \<rightharpoonup> string list))
          [Call 0 [] None 4096, Call 0 [] None 4096, Call 0 [] None 4096,
           Request 2, Request 1, Request 2, Request 2]) ! 1) = [TextDeltaEvent ''second'' ''second'']
   \<and> received (calls (run \<lparr>extract_output_keys = str_split (CHR '',''), json_dumps = concat \<circ> map snd\<rparr>
          (fresh ''mock-model''
             (Some [text_scenario ''first'' 10 5, text_scenario ''second'' 10 5 :: nat StreamEvent list])
             (Map.empty :: addr \<rightharpoonup> string list))
          [Call 0 [] None 4096, Call 0 [] None 4096, Call 0 [] None 4096,
           Request 2, Request 1, Request 2, Request 2]) ! 0) = []"
proof -
  define w where "w = run \<lparr>extract_output_keys = str_split (CHR '',''), json_dumps = concat \<circ> map snd\<rparr>
          (fresh ''mock-model''
             (Some [text_scenario ''first'' 10 5, text_scenario ''second'' 10 5 :: nat StreamEvent list])
             (Map.empty :: addr \<rightharpoonup> string list))
          [Call 0 [] None 4096, Call 0 [] None 4096, Call 0 [] None 4096,
           Request 2, Request 1, Request 2, Request 2]"
  have st: "started w = [2, 1]"
    by (simp add: w_def run_def fresh_def init_def stream_def py_mod_def py_getitem_def
                  text_scenario_def)
  have rq: "requests (calls w ! 2) = 3" "requests (calls w ! 1) = 1"
    by (simp_all add: w_def run_def fresh_def init_def stream_def py_mod_def py_getitem_def
                  text_scenario_def)
  have rq': "requests (calls w ! Suc 0) = Suc 0"
    using rq(2) by simp
  have c0: "received (calls w ! 0) = []"
    by (simp add: w_def run_def fresh_def init_def stream_def py_mod_def py_getitem_def
                  text_scenario_def)
  have ne: "[text_scenario ''first'' 10 5, text_scenario ''second'' 10 5 :: nat StreamEvent list] \<noteq> []"
    by simp
  have n0: "0 < length (started w)" and n1: "1 < length (started w)"
    by (simp_all add: st)
  from C2_cycling_by_first_request [OF ne n0 [unfolded w_def], where cs = "[]", folded w_def]
       C2_cycling_by_first_request [OF ne n1 [unfolded w_def], where cs = "[]", folded w_def]
  have "received (calls w ! 2) = text_scenario ''first'' 10 5
   \<and> frame (calls w ! 2) = Closed
   \<and> received (calls w ! 1) = [TextDeltaEvent ''second'' ''second'']"
    by (simp add: Let_def st rq rq' text_scenario_def)
  with c0 show ?thesis
    unfolding w_def by simp
qed

subsection \<open>C3: the terminal event\<close>

text \<open>
  C3 as the spec states it: every invocation, scenario-backed or fallback, emits
  exactly one terminal event (a \<^verbatim>\<open>FinishEvent\<close> or a \<^verbatim>\<open>StreamErrorEvent\<close>, never
  both), as the last element of its sequence.

  A scenario is any list of events, and the provider re-emits it as it is: a
  scenario without a terminal event gives a sequence without one.
\<close>

theorem C3_counterexample:
  "emitted \<lparr>extract_output_keys = str_split (CHR '',''), json_dumps = concat \<circ> map snd\<rparr>
     (init ''mock-model'' (Some [[TextDeltaEvent ''partial'' ''partial'']])
        :: (string list, string list, nat) MockLLMProvider)
     [''hi''] [] None 4096
     = Inr [TextDeltaEvent ''partial'' ''partial'']
   \<and> \<not> terminal_ok [TextDeltaEvent ''partial'' ''partial'' :: nat StreamEvent]"
  by (simp add: emitted_scenario init_def terminal_ok_def is_terminal_def)

text \<open>
  C3 as amended: a fallback invocation emits exactly one terminal event, a
  \<^verbatim>\<open>FinishEvent\<close>, in last place. A scenario-backed invocation emits exactly one
  terminal event, in last place, if and only if the selected scenario has exactly one,
  in last place; the scenarios built by \<^verbatim>\<open>text_scenario\<close>, \<^verbatim>\<open>tool_call_scenario\<close>
  and \<^verbatim>\<open>error_scenario\<close> have.
\<close>

theorem C3_terminal_event:
  fixes p :: "('m, 't, 'v) MockLLMProvider" and tool_input :: 'v
  shows
  "((\<exists>es. emitted ext p msgs sys tls mt = Inr es \<and> terminal_ok es)
      \<longleftrightarrow> (scenarios p = []
           \<or> terminal_ok (scenarios p ! nat (call_index p mod int (length (scenarios p))))))
   \<and> (scenarios p = [] \<longrightarrow>
        (\<exists>es. emitted ext p msgs sys tls mt = Inr es \<and> terminal_ok es \<and> is_finish (last es)))
   \<and> terminal_ok (text_scenario text n_in n_out :: 'v StreamEvent list)
   \<and> terminal_ok (tool_call_scenario tool_name tool_input tool_use_id text)
   \<and> terminal_ok (error_scenario err recoverable :: 'v StreamEvent list)"
proof (cases "scenarios p = []")
  case True
  then show ?thesis
    by (simp add: emitted_fallback terminal_ok_fallback)
       (simp add: terminal_ok_def is_terminal_def text_scenario_def tool_call_scenario_def
                  error_scenario_def)
next
  case False
  then show ?thesis
    by (simp add: emitted_scenario)
       (simp add: terminal_ok_def is_terminal_def text_scenario_def tool_call_scenario_def
                  error_scenario_def)
qed

theorem C3_witness:
  "(\<exists>es. emitted \<lparr>extract_output_keys = str_split (CHR '',''), json_dumps = concat \<circ> map snd\<rparr>
           (init ''gpt-test'' None :: (string list, string list, nat) MockLLMProvider)
           [''hi''] [] None 4096 = Inr es
         \<and> terminal_ok es \<and> is_finish (last es))
   \<and> terminal_ok (error_scenario ''Connection lost'' False :: nat StreamEvent list)"
  using C3_terminal_event
    [of "\<lparr>extract_output_keys = str_split (CHR '',''), json_dumps = concat \<circ> map snd\<rparr>"
        "init ''gpt-test'' None :: (string list, string list, nat) MockLLMProvider"
        "[''hi'']" "[]" None 4096 "[]" 0 0 "[]" 0 "[]" "''Connection lost''" False]
  by (simp add: init_def)

subsection \<open>C4: the fallback sequence\<close>

text \<open>
  C4: on a provider with no scenarios, a call to \<^verbatim>\<open>stream()\<close> takes the response
  of \<^verbatim>\<open>_generate_mock_response\<close> with \<^verbatim>\<open>json_mode=False\<close>, the fixed sentence, and
  emits one \<^verbatim>\<open>TextDeltaEvent\<close> per word (the first word as it is, every later word
  with one space before it), then exactly one \<^verbatim>\<open>TextEndEvent\<close>, then exactly one
  \<^verbatim>\<open>FinishEvent\<close> with stop reason \<^verbatim>\<open>mock_complete\<close>; the sequence has at least one
  delta, one end and one finish.
\<close>

theorem C4_fallback_sequence:
  assumes "scenarios p = []"
  shows "\<exists>es. emitted ext p msgs sys tls mt = Inr es
     \<and> es = [TextDeltaEvent ''This'' ''This'',
      TextDeltaEvent '' is'' ''This is'',
      TextDeltaEvent '' a'' ''This is a'',
      TextDeltaEvent '' mock'' ''This is a mock'',
      TextDeltaEvent '' response'' ''This is a mock response'',
      TextDeltaEvent '' for'' ''This is a mock response for'',
      TextDeltaEvent '' testing'' ''This is a mock response for testing'',
      TextDeltaEvent '' purposes.'' ''This is a mock response for testing purposes.'',
      TextEndEvent ''This is a mock response for testing purposes.'',
      FinishEvent ''mock_complete'' (model p) None None]
     \<and> es = filter is_text_delta es
            @ [TextEndEvent (generate_mock_response ext sys False),
               FinishEvent ''mock_complete'' (model p) None None]
     \<and> map content (filter is_text_delta es) =
          (case str_split (CHR '' '') (generate_mock_response ext sys False) of
             [] \<Rightarrow> []
           | w # ws \<Rightarrow> w # map (\<lambda>word. '' '' @ word) ws)
     \<and> 1 \<le> length (filter is_text_delta es)
     \<and> length (filter is_text_end es) = 1
     \<and> length (filter is_finish es) = 1"
  using assms
  by (simp add: emitted_fallback generate_mock_response_def fallback_words)

theorem C4_witness:
  "\<exists>es. emitted \<lparr>extract_output_keys = str_split (CHR '',''), json_dumps = concat \<circ> map snd\<rparr>
          (init ''mock-model'' None :: (string list, string list, nat) MockLLMProvider)
          [''hi''] [] None 4096 = Inr es
     \<and> es = [TextDeltaEvent ''This'' ''This'',
      TextDeltaEvent '' is'' ''This is'',
      TextDeltaEvent '' a'' ''This is a'',
      TextDeltaEvent '' mock'' ''This is a mock'',
      TextDeltaEvent '' response'' ''This is a mock response'',
      TextDeltaEvent '' for'' ''This is a mock response for'',
      TextDeltaEvent '' testing'' ''This is a mock response for testing'',
      TextDeltaEvent '' purposes.'' ''This is a mock response for testing purposes.'',
      TextEndEvent ''This is a mock response for testing purposes.'',
      FinishEvent ''mock_complete'' ''mock-model'' None None]"
  using C4_fallback_sequence
    [of "init ''mock-model'' None :: (string list, string list, nat) MockLLMProvider"
        "\<lparr>extract_output_keys = str_split (CHR '',''), json_dumps = concat \<circ> map snd\<rparr>" "[''hi'']" "[]" None 4096]
  by (simp add: init_def)

subsection \<open>C5: snapshots are the concatenated contents\<close>

text \<open>
  C5: in every fallback sequence the snapshot of the \<open>i\<close>-th \<^verbatim>\<open>TextDeltaEvent\<close> is
  the concatenation of the contents of the text deltas 1 to \<open>i\<close>, in the order of
  emission.
\<close>

theorem C5_prefix_invariant:
  assumes "scenarios p = []"
  shows "\<exists>es. emitted ext p msgs sys tls mt = Inr es \<and> snapshots_ok es"
  using assms by (simp add: emitted_fallback snapshots_ok_fallback)

theorem C5_witness:
  "\<exists>es. emitted \<lparr>extract_output_keys = str_split (CHR '',''), json_dumps = concat \<circ> map snd\<rparr>
          (init ''mock-model'' None :: (string list, string list, nat) MockLLMProvider)
          [''hi''] [] None 4096 = Inr es
        \<and> snapshots_ok es
        \<and> snapshot (filter is_text_delta es ! 2) = ''This is a''"
  using C5_prefix_invariant
    [of "init ''mock-model'' None :: (string list, string list, nat) MockLLMProvider"
        "\<lparr>extract_output_keys = str_split (CHR '',''), json_dumps = concat \<circ> map snd\<rparr>" "[''hi'']" "[]" None 4096]
  by (auto simp: init_def emitted_fallback)

subsection \<open>C6: the text of the end event\<close>

text \<open>
  C6 as the spec states it: in every invocation whose sequence has a
  \<^verbatim>\<open>TextEndEvent\<close>, its \<^verbatim>\<open>full_text\<close> is the concatenation of the contents of the
  text deltas before it, and there is at most one \<^verbatim>\<open>TextEndEvent\<close>.

  A scenario may hold a \<^verbatim>\<open>TextEndEvent\<close> with any text, and it is re-emitted as
  it is.
\<close>

theorem C6_counterexample:
  "emitted \<lparr>extract_output_keys = str_split (CHR '',''), json_dumps = concat \<circ> map snd\<rparr>
     (init ''mock-model''
        (Some [[TextDeltaEvent ''Hello'' ''Hello'', TextEndEvent ''Goodbye'',
                FinishEvent ''stop'' ''mock'' (Some 10) (Some 5)]])
        :: (string list, string list, nat) MockLLMProvider)
     [''hi''] [] None 4096
     = Inr [TextDeltaEvent ''Hello'' ''Hello'', TextEndEvent ''Goodbye'',
            FinishEvent ''stop'' ''mock'' (Some 10) (Some 5)]
   \<and> \<not> text_end_ok [TextDeltaEvent ''Hello'' ''Hello'', TextEndEvent ''Goodbye'',
                      FinishEvent ''stop'' ''mock'' (Some 10) (Some 5) :: nat StreamEvent]"
  by (simp add: emitted_scenario init_def text_end_ok_def All_less_Suc)

text \<open>
  C6 as amended: a fallback invocation emits exactly one \<^verbatim>\<open>TextEndEvent\<close>, and
  its \<^verbatim>\<open>full_text\<close> is the concatenation of the contents of the text deltas before
  it. A scenario-backed invocation has the property (at most one \<^verbatim>\<open>TextEndEvent\<close>,
  each with the concatenated contents of the deltas before it) if and only if the
  selected scenario has it; the scenarios built by \<^verbatim>\<open>text_scenario\<close>,
  \<^verbatim>\<open>tool_call_scenario\<close> and \<^verbatim>\<open>error_scenario\<close> have it, holding no
  \<^verbatim>\<open>TextEndEvent\<close>.
\<close>

theorem C6_text_end:
  fixes p :: "('m, 't, 'v) MockLLMProvider" and tool_input :: 'v
  shows
  "((\<exists>es. emitted ext p msgs sys tls mt = Inr es \<and> text_end_ok es)
      \<longleftrightarrow> (scenarios p = []
           \<or> text_end_ok (scenarios p ! nat (call_index p mod int (length (scenarios p))))))
   \<and> (scenarios p = [] \<longrightarrow>
        (\<exists>es. emitted ext p msgs sys tls mt = Inr es \<and> text_end_ok es
              \<and> length (filter is_text_end es) = 1))
   \<and> text_end_ok (text_scenario text n_in n_out :: 'v StreamEvent list)
   \<and> text_end_ok (tool_call_scenario tool_name tool_input tool_use_id text)
   \<and> text_end_ok (error_scenario err recoverable :: 'v StreamEvent list)
   \<and> filter is_text_end (text_scenario text n_in n_out :: 'v StreamEvent list) = []
   \<and> filter is_text_end (tool_call_scenario tool_name tool_input tool_use_id text) = []
   \<and> filter is_text_end (error_scenario err recoverable :: 'v StreamEvent list) = []"
proof (cases "scenarios p = []")
  case True
  then show ?thesis
    by (simp add: emitted_fallback text_end_ok_fallback)
       (simp add: text_end_ok_def text_scenario_def tool_call_scenario_def
                  error_scenario_def All_less_Suc)
next
  case False
  then show ?thesis
    by (simp add: emitted_scenario)
       (simp add: text_end_ok_def text_scenario_def tool_call_scenario_def
                  error_scenario_def All_less_Suc)
qed

theorem C6_witness:
  "(\<exists>es. emitted \<lparr>extract_output_keys = str_split (CHR '',''), json_dumps = concat \<circ> map snd\<rparr>
           (init ''mock-model'' None :: (string list, string list, nat) MockLLMProvider)
           [''hi''] [] None 4096 = Inr es
         \<and> text_end_ok es \<and> length (filter is_text_end es) = 1)
   \<and> text_end_ok (text_scenario ''Hello world'' 10 5 :: nat StreamEvent list)"
  using C6_text_end
    [of "\<lparr>extract_output_keys = str_split (CHR '',''), json_dumps = concat \<circ> map snd\<rparr>"
        "init ''mock-model'' None :: (string list, string list, nat) MockLLMProvider"
        "[''hi'']" "[]" None 4096 "''Hello world''" 10 5 "[]" 0 "[]" "[]" False]
  by (simp add: init_def)

subsection \<open>C7: no exception leaves \<^verbatim>\<open>stream\<close>\<close>

text \<open>
  C7: whatever the arguments and the scenario list, no step of the generator
  raises (the index \<^verbatim>\<open>_call_index % len(scenarios)\<close> is computed only for a
  non-empty list and is in range), and a consumed call returns its events. With an
  empty scenario list the call goes to the fallback, whose sequence is non-empty and
  has no \<^verbatim>\<open>StreamErrorEvent\<close>; a \<^verbatim>\<open>StreamErrorEvent\<close> at place \<open>i\<close> of an emitted
  sequence is the item at place \<open>i\<close> of the selected scenario.
\<close>

theorem C7_no_exception:
  "(\<forall>g err. fst (anext ext p g) \<noteq> Raise err)
   \<and> (\<exists>es. emitted ext p msgs sys tls mt = Inr es
         \<and> (\<forall>i < length es. is_stream_error (es ! i) \<longrightarrow>
               scenarios p \<noteq> []
               \<and> i < length (scenarios p ! nat (call_index p mod int (length (scenarios p))))
               \<and> scenarios p ! nat (call_index p mod int (length (scenarios p))) ! i = es ! i))
   \<and> (scenarios p = [] \<longrightarrow>
        (\<exists>es. emitted ext p msgs sys tls mt = Inr es \<and> es \<noteq> []
              \<and> filter is_stream_error es = []))"
proof (cases "scenarios p = []")
  case True
  then show ?thesis
    by (simp add: anext_never_raises emitted_fallback All_less_Suc del: anext.simps)
next
  case False
  then show ?thesis
    by (simp add: anext_never_raises emitted_scenario del: anext.simps)
qed

theorem C7_witness:
  "(\<exists>es. emitted \<lparr>extract_output_keys = str_split (CHR '',''), json_dumps = concat \<circ> map snd\<rparr>
           (init ''mock-model'' (Some [error_scenario ''Connection lost'' False])
              :: (string list, string list, nat) MockLLMProvider)
           [''hi''] [] None 4096 = Inr es
         \<and> es = [StreamErrorEvent ''Connection lost'' False])
   \<and> (\<exists>es. emitted \<lparr>extract_output_keys = str_split (CHR '',''), json_dumps = concat \<circ> map snd\<rparr>
           (init ''mock-model'' (Some []) :: (string list, string list, nat) MockLLMProvider)
           [''hi''] [] None 4096 = Inr es
         \<and> es \<noteq> [] \<and> filter is_stream_error es = [])"
  using C7_no_exception
    [of "\<lparr>extract_output_keys = str_split (CHR '',''), json_dumps = concat \<circ> map snd\<rparr>"
        "init ''mock-model'' (Some [error_scenario ''Connection lost'' False])
              :: (string list, string list, nat) MockLLMProvider"
        "[''hi'']" "[]" None 4096]
    C7_no_exception
    [of "\<lparr>extract_output_keys = str_split (CHR '',''), json_dumps = concat \<circ> map snd\<rparr>"
        "init ''mock-model'' (Some []) :: (string list, string list, nat) MockLLMProvider"
        "[''hi'']" "[]" None 4096]
  by (simp add: init_def emitted_scenario error_scenario_def)

subsection \<open>C8: the call ledger\<close>

text \<open>
  C8 as the spec states it: the ledger keeps the order of insertion, its length is
  the number of completed \<^verbatim>\<open>stream()\<close> calls, and every record holds exactly the
  \<^verbatim>\<open>messages\<close>, \<^verbatim>\<open>system\<close> and \<^verbatim>\<open>tools\<close> of its own call, with no cross-talk between
  invocations.

  A caller builds the list \<open>[hi]\<close>, passes it to a first call and requests an item;
  it appends \<open>more\<close> to the same list, passes it to a second call and requests an
  item; it makes a third call and requests nothing. Three calls have returned and the
  ledger has two records; when the first call was made its \<^verbatim>\<open>messages\<close> were \<open>[hi]\<close>,
  and the first record now shows \<open>[hi, more]\<close>, the list of the second call.
\<close>

theorem C8_counterexample:
  "length (calls (run \<lparr>extract_output_keys = str_split (CHR '',''), json_dumps = concat \<circ> map snd\<rparr>
          (fresh ''mock-model'' (Some [text_scenario ''ok'' 10 5 :: nat StreamEvent list])
             (Map.empty :: addr \<rightharpoonup> string list))
          [Write 0 [''hi''], Call 0 ''X'' None 4096, Request 0,
           Write 0 [''hi'', ''more''], Call 0 ''Y'' None 4096, Request 1,
           Call 0 ''Z'' None 4096])) = 3
   \<and> length (stream_calls (provider (run \<lparr>extract_output_keys = str_split (CHR '',''), json_dumps = concat \<circ> map snd\<rparr>
          (fresh ''mock-model'' (Some [text_scenario ''ok'' 10 5 :: nat StreamEvent list])
             (Map.empty :: addr \<rightharpoonup> string list))
          [Write 0 [''hi''], Call 0 ''X'' None 4096, Request 0,
           Write 0 [''hi'', ''more''], Call 0 ''Y'' None 4096, Request 1,
           Call 0 ''Z'' None 4096]))) = 2
   \<and> heap (run \<lparr>extract_output_keys = str_split (CHR '',''), json_dumps = concat \<circ> map snd\<rparr>
          (fresh ''mock-model'' (Some [text_scenario ''ok'' 10 5 :: nat StreamEvent list])
             (Map.empty :: addr \<rightharpoonup> string list))
          [Write 0 [''hi''], Call 0 ''X'' None 4096]) 0 = Some [''hi'']
   \<and> heap (run \<lparr>extract_output_keys = str_split (CHR '',''), json_dumps = concat \<circ> map snd\<rparr>
          (fresh ''mock-model'' (Some [text_scenario ''ok'' 10 5 :: nat StreamEvent list])
             (Map.empty :: addr \<rightharpoonup> string list))
          [Write 0 [''hi''], Call 0 ''X'' None 4096, Request 0,
           Write 0 [''hi'', ''more''], Call 0 ''Y'' None 4096, Request 1,
           Call 0 ''Z'' None 4096])
        (messages (stream_calls (provider (run \<lparr>extract_output_keys = str_split (CHR '',''), json_dumps = concat \<circ> map snd\<rparr>
          (fresh ''mock-model'' (Some [text_scenario ''ok'' 10 5 :: nat StreamEvent list])
             (Map.empty :: addr \<rightharpoonup> string list))
          [Write 0 [''hi''], Call 0 ''X'' None 4096, Request 0,
           Write 0 [''hi'', ''more''], Call 0 ''Y'' None 4096, Request 1,
           Call 0 ''Z'' None 4096])) ! 0))
       = Some [''hi'', ''more'']"
  by (simp add: run_def fresh_def init_def stream_def py_mod_def py_getitem_def
                text_scenario_def)

text \<open>
  C8 as amended: after every schedule of calls, requests and writes of the caller,
  the ledger holds one record for every call requested at least once and none for a
  call never requested, in the order in which the calls were first requested, so its
  length is the number of calls requested at least once. The record of a call holds
  the \<^verbatim>\<open>system\<close> string and the very \<^verbatim>\<open>messages\<close> and \<^verbatim>\<open>tools\<close> objects passed to
  that call (their addresses, no copy). The first request on a call appends its
  record; later requests, other calls and the caller's writes leave the ledger as it
  is, but a write changes the content a record shows for the object written. When
  every call is consumed before the next is made (\<open>run_calls\<close>) the ledger gains
  one record per call, in call order, and after a consumed call with
  \<^verbatim>\<open>system = X\<close> and \<^verbatim>\<open>tools = T\<close> the last record has them.
\<close>

theorem C8_ledger_by_first_request:
  fixes h :: "addr \<rightharpoonup> 'c" and scs :: "'v StreamEvent list list option"
    and p :: "('m, 't, 'v) MockLLMProvider"
  shows
  "(let w = run ext (fresh name scs h) acts in
      map args (calls w) = concat (map call_args acts)
      \<and> stream_calls (provider w) = map (\<lambda>i. ledger_entry (args (calls w ! i))) (started w)
      \<and> distinct (started w)
      \<and> set (started w) = {i. i < length (calls w) \<and> 0 < requests (calls w ! i)}
      \<and> length (stream_calls (provider w))
          = card {i. i < length (calls w) \<and> 0 < requests (calls w ! i)}
      \<and> (\<forall>i < length (calls w).
            (requests (calls w ! i) = 0 \<longrightarrow>
               stream_calls (provider (act ext w (Request i)))
                 = stream_calls (provider w) @ [ledger_entry (args (calls w ! i))])
            \<and> (0 < requests (calls w ! i) \<longrightarrow>
                 stream_calls (provider (act ext w (Request i))) = stream_calls (provider w)))
      \<and> (\<forall>m sys t mt.
            stream_calls (provider (act ext w (Call m sys t mt))) = stream_calls (provider w))
      \<and> (\<forall>a c. stream_calls (provider (act ext w (Write a c))) = stream_calls (provider w)
                 \<and> heap (act ext w (Write a c)) a = Some c))
   \<and> stream_calls (snd (run_calls ext p cs)) =
       stream_calls p
       @ map (\<lambda>(msgs, sys, tls, mt). \<lparr>messages = msgs, system = sys, tools = tls\<rparr>) cs
   \<and> last (stream_calls (after_call ext p msgs X T mt))
       = \<lparr>messages = msgs, system = X, tools = T\<rparr>"
proof -
  let ?w = "run ext (fresh name scs h) acts"
  let ?scs = "case scs of None \<Rightarrow> [] | Some s \<Rightarrow> s"
  have inv: "world_inv name ?scs ?w" by (rule world_inv_reachable)
  have a: "map args (calls ?w) = concat (map call_args acts)"
    using args_run [of ext "fresh name scs h" acts] by (simp add: fresh_def)
  from inv have b: "stream_calls (provider ?w)
                      = map (\<lambda>i. ledger_entry (args (calls ?w ! i))) (started ?w)"
    and c: "distinct (started ?w)"
    and d: "set (started ?w) = {i. i < length (calls ?w) \<and> 0 < requests (calls ?w ! i)}"
    by (simp_all add: world_inv_def)
  have e: "length (stream_calls (provider ?w))
             = card {i. i < length (calls ?w) \<and> 0 < requests (calls ?w ! i)}"
    using distinct_card [OF c] by (simp add: b d)
  have f: "\<forall>i < length (calls ?w).
            (requests (calls ?w ! i) = 0 \<longrightarrow>
               stream_calls (provider (act ext ?w (Request i)))
                 = stream_calls (provider ?w) @ [ledger_entry (args (calls ?w ! i))])
            \<and> (0 < requests (calls ?w ! i) \<longrightarrow>
                 stream_calls (provider (act ext ?w (Request i))) = stream_calls (provider ?w))"
    using first_request_appends [OF inv] later_request_keeps [OF inv] by metis
  have g: "\<forall>m sys t mt.
            stream_calls (provider (act ext ?w (Call m sys t mt))) = stream_calls (provider ?w)"
    by (simp add: stream_def)
  have i: "\<forall>a c. stream_calls (provider (act ext ?w (Write a c))) = stream_calls (provider ?w)
                 \<and> heap (act ext ?w (Write a c)) a = Some c"
    by simp
  have j: "stream_calls (snd (run_calls ext p cs)) =
       stream_calls p
       @ map (\<lambda>(msgs, sys, tls, mt). \<lparr>messages = msgs, system = sys, tools = tls\<rparr>) cs"
    by (rule run_calls_ledger)
  have k: "last (stream_calls (after_call ext p msgs X T mt))
       = \<lparr>messages = msgs, system = X, tools = T\<rparr>"
    by (simp add: after_call_eq)
  show ?thesis
    unfolding Let_def using a b c d e f g i j k by blast
qed

theorem C8_witness:
  "stream_calls (provider (run \<lparr>extract_output_keys = str_split (CHR '',''), json_dumps = concat \<circ> map snd\<rparr>
          (fresh ''mock-model'' (Some [text_scenario ''ok'' 10 5 :: nat StreamEvent list])
             (Map.empty :: addr \<rightharpoonup> string list))
          [Write 0 [''hi''], Call 0 ''X'' None 4096, Request 0,
           Write 0 [''hi'', ''more''], Call 0 ''Y'' None 4096, Request 1,
           Call 0 ''Z'' None 4096]))
     = [\<lparr>messages = 0, system = ''X'', tools = None\<rparr>,
        \<lparr>messages = 0, system = ''Y'', tools = None\<rparr>]"
proof -
  define w where "w = run \<lparr>extract_output_keys = str_split (CHR '',''), json_dumps = concat \<circ> map snd\<rparr>
          (fresh ''mock-model'' (Some [text_scenario ''ok'' 10 5 :: nat StreamEvent list])
             (Map.empty :: addr \<rightharpoonup> string list))
          [Write 0 [''hi''], Call 0 ''X'' None 4096, Request 0,
           Write 0 [''hi'', ''more''], Call 0 ''Y'' None 4096, Request 1,
           Call 0 ''Z'' None 4096]"
  have st: "started w = [0, 1]"
    by (simp add: w_def run_def fresh_def init_def stream_def py_mod_def py_getitem_def
                  text_scenario_def)
  have ar: "args (calls w ! 0) = (0, ''X'', None, 4096)" "args (calls w ! 1) = (0, ''Y'', None, 4096)"
    by (simp_all add: w_def run_def fresh_def init_def stream_def py_mod_def py_getitem_def
                  text_scenario_def)
  from C8_ledger_by_first_request
    [of "\<lparr>extract_output_keys = str_split (CHR '',''), json_dumps = concat \<circ> map snd\<rparr>"
        "''mock-model''" "Some [text_scenario ''ok'' 10 5 :: nat StreamEvent list]"
        "Map.empty :: addr \<rightharpoonup> string list"
        "[Write 0 [''hi''], Call 0 ''X'' None 4096, Request 0,
           Write 0 [''hi'', ''more''], Call 0 ''Y'' None 4096, Request 1,
           Call 0 ''Z'' None 4096]", folded w_def,
     unfolded Let_def, THEN conjunct1, THEN conjunct2, THEN conjunct1]
  have "stream_calls (provider w) = map (\<lambda>i. ledger_entry (args (calls w ! i))) (started w)" .
  then have "stream_calls (provider w)
     = [\<lparr>messages = 0, system = ''X'', tools = None\<rparr>,
        \<lparr>messages = 0, system = ''Y'', tools = None\<rparr>]"
    using ar by (simp add: st)
  then show ?thesis unfolding w_def .
qed

subsection \<open>C9: what a call leaves unchanged\<close>

text \<open>
  C9: a consumed call changes the provider by one append to \<^verbatim>\<open>stream_calls\<close>
  and, only when the scenario list is non-empty, one increment of \<^verbatim>\<open>_call_index\<close>,
  and by nothing else: \<^verbatim>\<open>model\<close> and \<^verbatim>\<open>scenarios\<close> are as before, and so is
  \<^verbatim>\<open>_call_index\<close> when the list is empty. The same three are unchanged when the
  consumer stops after any number \<open>k\<close> of requests.
\<close>

theorem C9_frame:
  "after_call ext p msgs sys tls mt =
     p\<lparr>stream_calls := stream_calls p @ [\<lparr>messages = msgs, system = sys, tools = tls\<rparr>],
       call_index := (if scenarios p \<noteq> [] then call_index p + 1 else call_index p)\<rparr>
   \<and> model (after_call ext p msgs sys tls mt) = model p
   \<and> scenarios (after_call ext p msgs sys tls mt) = scenarios p
   \<and> (scenarios p = [] \<longrightarrow> call_index (after_call ext p msgs sys tls mt) = call_index p)
   \<and> model (snd (snd (consume k ext p (fst (stream p msgs sys tls mt))))) = model p
   \<and> scenarios (snd (snd (consume k ext p (fst (stream p msgs sys tls mt))))) = scenarios p
   \<and> (scenarios p = [] \<longrightarrow>
        call_index (snd (snd (consume k ext p (fst (stream p msgs sys tls mt))))) = call_index p)"
proof (cases k)
  case 0
  then show ?thesis by (simp add: after_call_eq stream_def)
next
  case (Suc j)
  then show ?thesis
    by (simp add: after_call_eq stream_def consume_Suc_Created del: consume.simps)
qed

theorem C9_witness:
  "after_call \<lparr>extract_output_keys = str_split (CHR '',''), json_dumps = concat \<circ> map snd\<rparr>
     (init ''mock-model'' None :: (string list, string list, nat) MockLLMProvider)
     [''hi''] [] None 4096
   = \<lparr>model = ''mock-model'', scenarios = [], call_index = 0,
      stream_calls = [\<lparr>messages = [''hi''], system = [], tools = None\<rparr>]\<rparr>
   \<and> call_index (snd (snd (consume 3 \<lparr>extract_output_keys = str_split (CHR '',''), json_dumps = concat \<circ> map snd\<rparr>
        (init ''mock-model'' None :: (string list, string list, nat) MockLLMProvider)
        (fst (stream (init ''mock-model'' None :: (string list, string list, nat) MockLLMProvider) [''hi''] [] None 4096))))) = 0"
  using C9_frame
    [of "\<lparr>extract_output_keys = str_split (CHR '',''), json_dumps = concat \<circ> map snd\<rparr>"
        "init ''mock-model'' None :: (string list, string list, nat) MockLLMProvider"
        "[''hi'']" "[]" None 4096 3]
  by (simp add: init_def del: consume.simps)

subsection \<open>C10: the fallback ignores the arguments\<close>

text \<open>
  C10: on a provider with no scenarios, two calls with any \<^verbatim>\<open>messages\<close>,
  \<^verbatim>\<open>system\<close>, \<^verbatim>\<open>tools\<close> and \<^verbatim>\<open>max_tokens\<close> emit the same sequence, whether both are
  made on the same state or the second after the first; the non-JSON response does
  not depend on the system prompt.
\<close>

theorem C10_arguments_ignored:
  assumes "scenarios p = []"
  shows "emitted ext p msgs1 sys1 tls1 mt1 = emitted ext p msgs2 sys2 tls2 mt2
     \<and> emitted ext (after_call ext p msgs1 sys1 tls1 mt1) msgs2 sys2 tls2 mt2
         = emitted ext p msgs1 sys1 tls1 mt1
     \<and> fst (run_calls ext p [(msgs1, sys1, tls1, mt1), (msgs2, sys2, tls2, mt2)])
         = [emitted ext p msgs1 sys1 tls1 mt1, emitted ext p msgs1 sys1 tls1 mt1]
     \<and> (\<exists>es. emitted ext p msgs1 sys1 tls1 mt1 = Inr es)
     \<and> generate_mock_response ext sys1 False = generate_mock_response ext sys2 False"
  using assms
  by (simp add: emitted_fallback after_call_eq generate_mock_response_def)

theorem C10_witness:
  "emitted \<lparr>extract_output_keys = str_split (CHR '',''), json_dumps = concat \<circ> map snd\<rparr>
     (init ''mock-model'' None :: (string list, string list, nat) MockLLMProvider)
     [''hi''] ''output_keys: [name, age]'' None 4096
   = emitted \<lparr>extract_output_keys = str_split (CHR '',''), json_dumps = concat \<circ> map snd\<rparr>
     (init ''mock-model'' None :: (string list, string list, nat) MockLLMProvider)
     [''bye'', ''now''] ''Be helpful'' (Some [''search'']) 1"
  using C10_arguments_ignored
    [of "init ''mock-model'' None :: (string list, string list, nat) MockLLMProvider"
        "\<lparr>extract_output_keys = str_split (CHR '',''), json_dumps = concat \<circ> map snd\<rparr>"
        "[''hi'']" "''output_keys: [name, age]''" None 4096
        "[''bye'', ''now'']" "''Be helpful''" "Some [''search'']" 1]
  by (simp add: init_def)

end
